theory Spec2Isabelle
  imports Main "HOL-Library.AList"
begin

section \<open>The Gaphor model generator (utils/model/gen\_uml.py)\<close>

text \<open>
  The generator reads the graph of elements produced by the model-file parser, sorts the
  elements into buckets, enriches them with attributes and hands descriptors to a
  writer. The program is dynamically typed and mutates the parsed objects in place, so the
  embedding has a universal value type, a store of objects addressed by the key under
  which the parser filed them, explicit state passing, and every exception as a value of
  the result type.
\<close>

subsection \<open>Values and exceptions\<close>

text \<open>
  \<open>PObj k\<close> is a reference to the object stored under key \<open>k\<close>; two references denote
  the same object exactly when their keys are equal (Python's \<open>is\<close>).
\<close>

datatype pyval =
    PNone
  | PBool bool
  | PInt int
  | PStr string
  | PObj string
  | PList "pyval list"
  | PTuple "pyval list"

text \<open>
  The exceptions that leave \<open>generate\<close>. The two deliberate ones carry the values that
  are formatted into their message: \<open>ValueError_no_name id class_name name\<close> is the
  "no name, but navigable" error of \<open>parse_association_end\<close>, and
  \<open>AssertionError_derived class_name name other_class_name\<close> is the failed assertion
  "already in derived union set". \<open>ValueError_literal\<close> is \<open>int()\<close> rejecting a string.
  \<open>Unmodelled\<close> marks the few behaviours of the interpreter that the embedding does not
  follow (they are listed where they arise); a run that reaches one is outside the model.
\<close>

datatype error =
    KeyError
  | TypeError
  | AttributeError
  | IndexError
  | RecursionError
  | ValueError_literal
  | ValueError_no_name pyval pyval pyval
  | AssertionError_derived pyval pyval pyval
  | Unmodelled

definition bindE :: "error + 'a \<Rightarrow> ('a \<Rightarrow> error + 'b) \<Rightarrow> error + 'b" where
  "bindE m f = (case m of Inl e \<Rightarrow> Inl e | Inr x \<Rightarrow> f x)"

text \<open>A \<open>for\<close> loop whose body may raise: the first exception ends the loop.\<close>

fun for_each :: "('a \<Rightarrow> 's \<Rightarrow> error + 's) \<Rightarrow> 'a list \<Rightarrow> 's \<Rightarrow> error + 's" where
  "for_each f [] s = Inr s"
| "for_each f (x # xs) s = (case f x s of Inl e \<Rightarrow> Inl e | Inr s' \<Rightarrow> for_each f xs s')"

text \<open>Truth value testing, and \<open>a or b\<close>. Objects define neither \<open>__bool__\<close> nor
  \<open>__len__\<close>, so they are true.\<close>

fun truthy :: "pyval \<Rightarrow> bool" where
  "truthy PNone = False"
| "truthy (PBool b) = b"
| "truthy (PInt n) = (n \<noteq> 0)"
| "truthy (PStr s) = (s \<noteq> [])"
| "truthy (PObj k) = True"
| "truthy (PList xs) = (xs \<noteq> [])"
| "truthy (PTuple xs) = (xs \<noteq> [])"

definition py_or :: "pyval \<Rightarrow> pyval \<Rightarrow> pyval" where
  "py_or a b = (if truthy a then a else b)"

text \<open>
  The items a \<open>for\<close> loop draws from a value. A string yields its characters. Looping
  over an object would go through the legacy sequence protocol and the patched
  \<open>__getitem__\<close>, which answers \<open>None\<close> for every index without end: not modelled.
\<close>

fun py_iter :: "pyval \<Rightarrow> error + pyval list" where
  "py_iter (PList xs) = Inr xs"
| "py_iter (PTuple xs) = Inr xs"
| "py_iter (PStr s) = Inr (map (\<lambda>c. PStr [c]) s)"
| "py_iter (PObj k) = Inl Unmodelled"
| "py_iter PNone = Inl TypeError"
| "py_iter (PBool b) = Inl TypeError"
| "py_iter (PInt n) = Inl TypeError"

text \<open>
  A value used as a dictionary key. Lists are unhashable. All dictionaries of the program
  are keyed by strings or \<open>None\<close>; numbers, booleans and tuples as keys (where
  \<open>1 == True\<close> would matter) are not modelled.
\<close>

fun as_key :: "pyval \<Rightarrow> error + pyval" where
  "as_key (PList xs) = Inl TypeError"
| "as_key (PTuple xs) = Inl Unmodelled"
| "as_key (PBool b) = Inl Unmodelled"
| "as_key (PInt n) = Inl Unmodelled"
| "as_key v = Inr v"

text \<open>
  Dictionaries whose values are the parsed objects themselves (\<open>all_elements\<close>,
  \<open>classes\<close>, \<open>properties\<close>, ...) are kept as the list of their keys, in insertion
  order; the object under a key is read from the store.
  \<open>dict_getitem\<close> is \<open>d[k]\<close>, \<open>dict_get\<close> is \<open>d.get(k)\<close>, \<open>dict_contains\<close> is
  \<open>k in d\<close>, \<open>dict_del\<close> is \<open>del d[k]\<close>, \<open>dict_setitem\<close> is \<open>d[k] = obj\<close> for the
  object stored under \<open>k\<close>.
\<close>

definition dict_getitem :: "string list \<Rightarrow> pyval \<Rightarrow> error + string" where
  "dict_getitem d k = bindE (as_key k) (\<lambda>k'.
     case k' of PStr s \<Rightarrow> (if s \<in> set d then Inr s else Inl KeyError) | _ \<Rightarrow> Inl KeyError)"

definition dict_get :: "string list \<Rightarrow> pyval \<Rightarrow> error + pyval" where
  "dict_get d k = bindE (as_key k) (\<lambda>k'.
     case k' of PStr s \<Rightarrow> (if s \<in> set d then Inr (PObj s) else Inr PNone) | _ \<Rightarrow> Inr PNone)"

definition dict_contains :: "string list \<Rightarrow> pyval \<Rightarrow> error + bool" where
  "dict_contains d k = bindE (as_key k) (\<lambda>k'.
     case k' of PStr s \<Rightarrow> Inr (s \<in> set d) | _ \<Rightarrow> Inr False)"

definition dict_del :: "string list \<Rightarrow> pyval \<Rightarrow> error + string list" where
  "dict_del d k = bindE (dict_getitem d k) (\<lambda>s. Inr (removeAll s d))"

definition dict_setitem :: "string list \<Rightarrow> string \<Rightarrow> string list" where
  "dict_setitem d k = (if k \<in> set d then d else d @ [k])"

subsection \<open>Parsed elements\<close>

text \<open>
  Modelled from the spec: the parser's classes \<open>base\<close> and \<open>element\<close>
  (gaphor.storage.parser) are not part of the source file. An element is a node with an
  identifier, a type tag and a mapping from field name to a scalar, an identifier or a
  list of identifiers; looking up an absent field gives the neutral value \<open>None\<close>.
  In Python terms an object has the dictionary \<open>values\<close> of scalar fields (strings), the
  dictionary \<open>references\<close> (identifiers and lists of identifiers, overwritten with the
  objects themselves by \<open>resolve\<close>), and its instance attributes: \<open>id\<close> and \<open>type\<close> set
  by the parser, and whatever the generator assigns later. \<open>is_element\<close> is
  \<open>isinstance(val, element)\<close>; the parser also files canvas items, which are no elements.
\<close>

record element =
  is_element :: bool
  values_dict :: "(string \<times> string) list"
  references_dict :: "(string \<times> pyval) list"
  attrs_dict :: "(string \<times> pyval) list"

text \<open>
  The dictionary \<open>all_elements\<close> that the parser returns: the objects by key, in the order
  of the file. It is the store of the run: the generator creates no objects, it changes
  these. \<open>obj h k\<close> is the object under \<open>k\<close> (a key that is not there reads as an object
  with no fields, which no reference of a parsed file points to).
\<close>

type_synonym heap = "(string \<times> element) list"

definition blank :: element where
  "blank = \<lparr>is_element = False, values_dict = [], references_dict = [], attrs_dict = []\<rparr>"

definition obj :: "heap \<Rightarrow> string \<Rightarrow> element" where
  "obj h k = (case map_of h k of Some x \<Rightarrow> x | None \<Rightarrow> blank)"

text \<open>
  \<open>getitem\<close> is \<open>x[key]\<close> with the patch of lines 39 to 50: the scalar field, else the
  reference, else \<open>None\<close>. \<open>get\<close> is \<open>x.get(key)\<close>, the same lookup. \<open>getattr\<close> is
  \<open>x.key\<close>: an instance attribute if one is set, else the field lookup (\<open>__getattr__\<close>).
  \<open>setattr\<close> is the assignment \<open>x.key = v\<close>.
\<close>

definition getitem :: "element \<Rightarrow> string \<Rightarrow> pyval" where
  "getitem x key =
     (case map_of (values_dict x) key of
        Some s \<Rightarrow> PStr s
      | None \<Rightarrow> (case map_of (references_dict x) key of Some v \<Rightarrow> v | None \<Rightarrow> PNone))"

definition get :: "element \<Rightarrow> string \<Rightarrow> pyval" where
  "get x key = getitem x key"

definition getattr :: "element \<Rightarrow> string \<Rightarrow> pyval" where
  "getattr x key =
     (case map_of (attrs_dict x) key of Some v \<Rightarrow> v | None \<Rightarrow> getitem x key)"

definition setattr :: "heap \<Rightarrow> string \<Rightarrow> string \<Rightarrow> pyval \<Rightarrow> heap" where
  "setattr h k key v =
     AList.update k ((obj h k)\<lparr>attrs_dict := AList.update key v (attrs_dict (obj h k))\<rparr>) h"

definition set_reference :: "heap \<Rightarrow> string \<Rightarrow> string \<Rightarrow> pyval \<Rightarrow> heap" where
  "set_reference h k key v =
     AList.update k
       ((obj h k)\<lparr>references_dict := AList.update key v (references_dict (obj h k))\<rparr>) h"

text \<open>
  \<open>attr_of h v key\<close> is \<open>v.key\<close> and \<open>item_of h v key\<close> is \<open>v[key]\<close> for a value \<open>v\<close>
  that need not be an object, with one of the field names the program uses (none of them
  is an attribute of \<open>None\<close>, a string, a number or a list; none of these can be indexed
  by a string).
\<close>

fun attr_of :: "heap \<Rightarrow> pyval \<Rightarrow> string \<Rightarrow> error + pyval" where
  "attr_of h (PObj k) key = Inr (getattr (obj h k) key)"
| "attr_of h v key = Inl AttributeError"

fun item_of :: "heap \<Rightarrow> pyval \<Rightarrow> string \<Rightarrow> error + pyval" where
  "item_of h (PObj k) key = Inr (getitem (obj h k) key)"
| "item_of h v key = Inl TypeError"

text \<open>\<open>v[0]\<close>. On an object the patched lookup finds no field \<open>0\<close> and answers \<open>None\<close>.\<close>

fun index0 :: "pyval \<Rightarrow> error + pyval" where
  "index0 (PList xs) = (case xs of [] \<Rightarrow> Inl IndexError | x # _ \<Rightarrow> Inr x)"
| "index0 (PTuple xs) = (case xs of [] \<Rightarrow> Inl IndexError | x # _ \<Rightarrow> Inr x)"
| "index0 (PStr s) = (case s of [] \<Rightarrow> Inl IndexError | c # _ \<Rightarrow> Inr (PStr [c]))"
| "index0 (PObj k) = Inr PNone"
| "index0 v = Inl TypeError"

text \<open>
  \<open>str(v)\<close>, as the f-strings apply it. The text of a number, a list or an object is not
  modelled.
\<close>

fun py_str :: "pyval \<Rightarrow> error + string" where
  "py_str PNone = Inr ''None''"
| "py_str (PStr s) = Inr s"
| "py_str (PBool b) = Inr (if b then ''True'' else ''False'')"
| "py_str v = Inl Unmodelled"

text \<open>The f-string \<open>f"{a}.{b}"\<close>, the qualified name the override policy is asked about.\<close>

definition qualified_name :: "pyval \<Rightarrow> pyval \<Rightarrow> error + string" where
  "qualified_name a b = bindE (py_str a) (\<lambda>s. bindE (py_str b) (\<lambda>t. Inr (s @ ''.'' @ t)))"

text \<open>\<open>v.endswith(suffix)\<close>. An attribute looked up on an object is never callable.\<close>

fun py_endswith :: "pyval \<Rightarrow> string \<Rightarrow> error + bool" where
  "py_endswith (PStr s) suffix = Inr (suffix = drop (length s - length suffix) s)"
| "py_endswith (PObj k) suffix = Inl TypeError"
| "py_endswith v suffix = Inl AttributeError"

text \<open>\<open>v.replace(" ", "").replace("\n", "").replace("\r", "")\<close>\<close>

fun remove_whitespace :: "pyval \<Rightarrow> error + string" where
  "remove_whitespace (PStr s) =
     Inr (filter (\<lambda>c. c \<noteq> CHR '' '' \<and> c \<noteq> CHR 0x0A \<and> c \<noteq> CHR 0x0D) s)"
| "remove_whitespace (PObj k) = Inl TypeError"
| "remove_whitespace v = Inl AttributeError"

text \<open>\<open>s.split(",")\<close>: always at least one piece.\<close>

fun split_comma :: "string \<Rightarrow> string list" where
  "split_comma [] = [[]]"
| "split_comma (c # cs) =
     (if c = CHR '','' then [] # split_comma cs
      else (case split_comma cs of w # ws \<Rightarrow> (c # w) # ws | [] \<Rightarrow> [[c]]))"

text \<open>
  \<open>int(v)\<close>. A literal is optional white space, an optional sign, decimal digits that may
  be separated by single underscores, optional white space. Strings with characters
  outside printable ASCII and the six ASCII white-space characters are not modelled.
\<close>

definition is_space :: "char \<Rightarrow> bool" where
  "is_space c = (c \<in> set [CHR 0x09, CHR 0x0A, CHR 0x0B, CHR 0x0C, CHR 0x0D, CHR '' ''])"

definition digit_val :: "char \<Rightarrow> nat option" where
  "digit_val c =
     (if of_char (CHR ''0'') \<le> (of_char c :: nat) \<and> (of_char c :: nat) \<le> of_char (CHR ''9'')
      then Some (of_char c - of_char (CHR ''0'')) else None)"

fun digits_value :: "nat \<Rightarrow> string \<Rightarrow> nat option" where
  "digits_value acc [] = Some acc"
| "digits_value acc [c] =
     (case digit_val c of Some v \<Rightarrow> Some (10 * acc + v) | None \<Rightarrow> None)"
| "digits_value acc (c # d # cs) =
     (if c = CHR ''_''
      then (case digit_val d of Some v \<Rightarrow> digits_value (10 * acc + v) cs | None \<Rightarrow> None)
      else (case digit_val c of Some v \<Rightarrow> digits_value (10 * acc + v) (d # cs) | None \<Rightarrow> None))"

definition unsigned_literal :: "string \<Rightarrow> nat option" where
  "unsigned_literal s =
     (case s of [] \<Rightarrow> None
      | c # cs \<Rightarrow> (case digit_val c of Some v \<Rightarrow> digits_value v cs | None \<Rightarrow> None))"

definition int_literal :: "string \<Rightarrow> error + int" where
  "int_literal s =
     (if \<exists>c \<in> set s. \<not> (is_space c \<or> (32 \<le> (of_char c :: nat) \<and> (of_char c :: nat) \<le> 126))
      then Inl Unmodelled
      else
        let u = rev (dropWhile is_space (rev (dropWhile is_space s)));
            negative = (u \<noteq> [] \<and> hd u = CHR ''-'');
            signed = (u \<noteq> [] \<and> (hd u = CHR ''-'' \<or> hd u = CHR ''+''))
        in case unsigned_literal (if signed then tl u else u) of
             None \<Rightarrow> Inl ValueError_literal
           | Some n \<Rightarrow> Inr (if negative then - int n else int n))"

fun py_int :: "pyval \<Rightarrow> error + int" where
  "py_int (PInt n) = Inr n"
| "py_int (PBool b) = Inr (if b then 1 else 0)"
| "py_int (PStr s) = int_literal s"
| "py_int v = Inl TypeError"

text \<open>
  \<open>obj.key.append(v)\<close> for the object under \<open>k\<close>: the list is changed in place, whether
  it is held by an instance attribute or by a reference field. \<open>has_append\<close> is the
  lookup of the method, which comes before the argument is evaluated; calling what an
  object answers for \<open>append\<close> is a TypeError.
\<close>

fun has_append :: "pyval \<Rightarrow> error + unit" where
  "has_append (PList xs) = Inr ()"
| "has_append (PObj k) = Inr ()"
| "has_append v = Inl AttributeError"

definition list_append :: "heap \<Rightarrow> string \<Rightarrow> string \<Rightarrow> pyval \<Rightarrow> error + heap" where
  "list_append h k key v =
     (case map_of (attrs_dict (obj h k)) key of
        Some (PList xs) \<Rightarrow> Inr (setattr h k key (PList (xs @ [v])))
      | Some w \<Rightarrow> bindE (has_append w) (\<lambda>_. Inl TypeError)
      | None \<Rightarrow>
          (case getitem (obj h k) key of
             PList xs \<Rightarrow> Inr (set_reference h k key (PList (xs @ [v])))
           | w \<Rightarrow> bindE (has_append w) (\<lambda>_. Inl TypeError)))"

subsection \<open>The writer and the state of a run\<close>

text \<open>
  The writer (utils.model.writer) and the override policy are outside the source file.
  The writer is taken as the sequence of calls it receives: each call is recorded with
  the key of every object passed and that object as it is at the moment of the call.
  Formatted texts are recorded as the list of their pieces. \<open>Msg\<close> is the console
  notice \<open>msg(...)\<close> of the same module. \<open>Add_attribute\<close> carries the enumerations when
  they are passed. The override policy is the predicate \<open>derives\<close> on qualified names.
\<close>

datatype event =
    Add_comment "pyval list"
  | Msg "pyval list"
  | Add_classdef string element
  | Add_attribute string element "string list option"
  | Add_association string element string element
  | Add_redefine string element
  | Add_derivedunion string element
  | Add_operation string element
  | Write_output

text \<open>
  The mutable state of \<open>generate\<close>: the objects, the calls made so far, and the three
  collections that the passes fill (\<open>derivedattributes\<close> and \<open>derivedunions\<close> are
  dictionaries keyed by name, \<open>redefines\<close> is a list of objects).
\<close>

record state =
  heap :: heap
  trace :: "event list"
  derivedattributes :: "(pyval \<times> string) list"
  derivedunions :: "(pyval \<times> string) list"
  redefines :: "string list"

definition apostrophe :: string where
  "apostrophe = [CHR 0x27]"

definition emit :: "event \<Rightarrow> state \<Rightarrow> state" where
  "emit ev st = st\<lparr>trace := trace st @ [ev]\<rparr>"

definition assign :: "string \<Rightarrow> string \<Rightarrow> pyval \<Rightarrow> state \<Rightarrow> state" where
  "assign k key v st = st\<lparr>heap := setattr (heap st) k key v\<rparr>"

text \<open>The buckets the elements are sorted into (lines 239 to 245), each a dictionary
  from key to object.\<close>

record buckets =
  classes :: "string list"
  enumerations :: "string list"
  generalizations :: "string list"
  associations :: "string list"
  properties :: "string list"
  operations :: "string list"
  extensions :: "string list"

subsection \<open>Tags of an association end (lines 65 to 83)\<close>

text \<open>
  \<open>parse_association_tags\<close> reads the slots of the applied stereotypes. The pair carried
  through the two loops is \<open>(subsets, redefines)\<close>; \<open>slot_tags\<close> is the body of the inner
  loop and \<open>stereotype_tags\<close> the body of the outer one.
\<close>

definition slot_tags :: "heap \<Rightarrow> pyval \<Rightarrow> pyval \<times> pyval \<Rightarrow> error + pyval \<times> pyval" where
  "slot_tags h slot tags =
     bindE (attr_of h slot ''definingFeature'') (\<lambda>feature.
     bindE (attr_of h feature ''name'') (\<lambda>name.
     bindE (if name = PStr ''subsets''
            then bindE (attr_of h slot ''value'') (\<lambda>value.
                 bindE (remove_whitespace value) (\<lambda>s. Inr (PList (map PStr (split_comma s)))))
            else Inr (fst tags)) (\<lambda>subsets.
     bindE (if name = PStr ''redefines''
            then bindE (attr_of h slot ''value'') (\<lambda>value.
                 bindE (remove_whitespace value) (\<lambda>s. Inr (PStr s)))
            else Inr (snd tags)) (\<lambda>redefs.
     Inr (subsets, redefs)))))"

definition stereotype_tags :: "heap \<Rightarrow> pyval \<Rightarrow> pyval \<times> pyval \<Rightarrow> error + pyval \<times> pyval" where
  "stereotype_tags h stereotype tags =
     bindE (attr_of h stereotype ''slot'') (\<lambda>slots.
     bindE (py_iter (py_or slots (PList []))) (\<lambda>items.
     for_each (slot_tags h) items tags))"

definition parse_association_tags :: "heap \<Rightarrow> pyval \<Rightarrow> error + pyval \<times> pyval" where
  "parse_association_tags h appliedStereotypes =
     bindE (py_iter (py_or appliedStereotypes (PList []))) (\<lambda>items.
     for_each (stereotype_tags h) items (PList [], PNone))"

subsection \<open>The ends of an association (lines 86 to 100)\<close>

text \<open>
  \<open>association_end\<close> is the body of the loop of \<open>get_association_ends\<close> for one entry of
  \<open>a.memberEnd\<close>; \<open>props\<close> and \<open>cls\<close> are the dictionaries \<open>properties\<close> and \<open>classes\<close>
  the function is given, which are indexed directly (a missing key raises). The result
  is the tuple of ends, as keys.
\<close>

definition association_end ::
  "string \<Rightarrow> string list \<Rightarrow> string list \<Rightarrow> pyval \<Rightarrow> heap \<times> string list \<Rightarrow> error + heap \<times> string list" where
  "association_end a props cls end hs =
     (case hs of (h, ends) \<Rightarrow>
      bindE (dict_getitem props end) (\<lambda>k.
      bindE (dict_getitem cls (getitem (obj h k) ''type'')) (\<lambda>t.
      let h1 = setattr h k ''type'' (PObj t) in
      bindE (if truthy (get (obj h1 k) ''class_'')
             then bindE (dict_getitem cls (getitem (obj h1 k) ''class_'')) (\<lambda>c.
                  Inr (setattr h1 k ''class_'' (PObj c)))
             else Inr (setattr h1 k ''class_'' PNone)) (\<lambda>h2.
      let h3 = setattr h2 k ''is_simple_attribute'' (PBool False) in
      if getattr (obj h3 k) ''type'' \<noteq> PNone
      then bindE (attr_of h3 (getattr (obj h3 k) ''type'') ''stereotypeName'') (\<lambda>sn.
           if sn = PStr ''SimpleAttribute''
           then Inr (setattr (setattr h3 k ''is_simple_attribute'' (PBool True))
                       a ''asAttribute'' (PObj k), ends @ [k])
           else Inr (h3, ends @ [k]))
      else Inr (h3, ends @ [k])))))"

definition get_association_ends ::
  "string \<Rightarrow> string list \<Rightarrow> string list \<Rightarrow> heap \<Rightarrow> error + heap \<times> string list" where
  "get_association_ends a props cls h =
     bindE (py_iter (getattr (obj h a) ''memberEnd'')) (\<lambda>items.
     for_each (association_end a props cls) items (h, []))"

subsection \<open>Enriching one end (lines 103 to 144)\<close>

text \<open>
  \<open>head\<close> and \<open>tail\<close> are the keys of the two ends. The function returns early for an end
  without \<open>class_\<close> and raises for a navigable end without a name.
\<close>

definition parse_association_end :: "string \<Rightarrow> string \<Rightarrow> heap \<Rightarrow> error + heap" where
  "parse_association_end head tail h =
     (let h1 = setattr h head ''navigable'' (get (obj h head) ''class_'') in
      if \<not> truthy (getattr (obj h1 head) ''navigable'') then Inr h1
      else
        let name = getattr (obj h1 head) ''name'' in
        if name = PNone
        then Inl (ValueError_no_name (getattr (obj h1 head) ''id'')
                    (getattr (obj h1 head) ''class_name'') (getattr (obj h1 head) ''name''))
        else
          let upper = py_or (getattr (obj h1 head) ''upperValue'') (PStr ''*'');
              lower = py_or (getattr (obj h1 head) ''lowerValue'') upper;
              lower = (if lower = PStr ''*'' then PInt 0 else lower)
          in
          bindE (parse_association_tags h1 (getattr (obj h1 head) ''appliedStereotype'')) (\<lambda>tags.
          bindE (item_of h1 (getattr (obj h1 head) ''class_'') ''name'') (\<lambda>class_name.
          let h2 = setattr h1 head ''class_name'' class_name in
          bindE (item_of h2 (getattr (obj h2 head) ''type'') ''name'') (\<lambda>opposite_class_name.
          let h3 = setattr h2 head ''opposite_class_name'' opposite_class_name;
              h4 = setattr h3 head ''lower'' lower;
              h5 = setattr h4 head ''upper'' upper;
              h6 = setattr h5 head ''subsets'' (fst tags);
              h7 = setattr h6 head ''composite''
                     (PBool (get (obj h6 head) ''aggregation'' = PStr ''composite''))
          in
          bindE (py_int (py_or (getattr (obj h7 head) ''isDerived'') (PInt 0))) (\<lambda>d.
          let h8 = setattr h7 head ''derived'' (PInt d) in
          Inr (setattr h8 head ''redefines'' (snd tags)))))))"

subsection \<open>Removing metaclasses and simple attributes (lines 147 to 167)\<close>

text \<open>
  \<open>extension_end\<close> is the body of the inner loop of \<open>filter_out_metaclasses\<close>, which
  collects the ends that have a \<open>type\<close>; \<open>filter_extension\<close> is the body of the outer
  loop for the Extension under \<open>e\<close>. \<open>all_keys\<close> are the keys of \<open>all_elements\<close>.
\<close>

definition extension_end ::
  "string list \<Rightarrow> pyval \<Rightarrow> heap \<times> string list \<Rightarrow> error + heap \<times> string list" where
  "extension_end all_keys end hs =
     (case hs of (h, ends) \<Rightarrow>
      bindE (dict_getitem all_keys end) (\<lambda>k.
      if \<not> truthy (getitem (obj h k) ''type'') then Inr (h, ends)
      else bindE (dict_getitem all_keys (getitem (obj h k) ''type'')) (\<lambda>t.
           Inr (setattr h k ''type'' (PObj t), ends @ [k]))))"

definition filter_extension ::
  "string list \<Rightarrow> string \<Rightarrow> string list \<times> heap \<Rightarrow> error + string list \<times> heap" where
  "filter_extension all_keys e ch =
     (case ch of (cls, h) \<Rightarrow>
      bindE (py_iter (getattr (obj h e) ''memberEnd'')) (\<lambda>items.
      bindE (for_each (extension_end all_keys) items (h, [])) (\<lambda>(h1, ends).
      let h2 = setattr h1 e ''memberEnd'' (PList (map PObj ends)) in
      if ends \<noteq> []
      then bindE (index0 (getattr (obj h2 e) ''memberEnd'')) (\<lambda>first.
           bindE (attr_of h2 first ''type'') (\<lambda>ty.
           bindE (attr_of h2 ty ''id'') (\<lambda>i.
           bindE (dict_del cls i) (\<lambda>cls'. Inr (cls', h2)))))
      else Inr (cls, h2))))"

definition filter_out_metaclasses ::
  "string list \<Rightarrow> string list \<Rightarrow> string list \<Rightarrow> heap \<Rightarrow> error + string list \<times> heap" where
  "filter_out_metaclasses cls exts all_keys h =
     for_each (filter_extension all_keys) exts (cls, h)"

definition filter_out_simple_attributes :: "heap \<Rightarrow> string list \<Rightarrow> string list" where
  "filter_out_simple_attributes h cls =
     filter (\<lambda>k. getattr (obj h k) ''stereotypeName'' \<noteq> PStr ''SimpleAttribute'') cls"

subsection \<open>Enrichment passes (lines 170 to 211)\<close>

text \<open>
  \<open>generalization_links\<close> is the body of the loop of
  \<open>enrich_classes_with_generalizations\<close> for the Generalization under \<open>g\<close>.
\<close>

definition generalization_links :: "string list \<Rightarrow> string \<Rightarrow> heap \<Rightarrow> error + heap" where
  "generalization_links cls g h =
     (let specific = getitem (obj h g) ''specific'';
          general = getitem (obj h g) ''general''
      in
      bindE (dict_getitem cls specific) (\<lambda>s.
      bindE (has_append (getattr (obj h s) ''generalization'')) (\<lambda>_.
      bindE (dict_getitem cls general) (\<lambda>g'.
      bindE (list_append h s ''generalization'' (PObj g')) (\<lambda>h1.
      bindE (has_append (getattr (obj h1 g') ''specialization'')) (\<lambda>_.
      list_append h1 g' ''specialization'' (PObj s)))))))"

definition enrich_classes_with_generalizations ::
  "string list \<Rightarrow> string list \<Rightarrow> heap \<Rightarrow> error + heap" where
  "enrich_classes_with_generalizations cls gens h = for_each (generalization_links cls) gens h"

text \<open>
  \<open>tag_children\<close> is the nested function of \<open>enrich_classes_with_stereotypes\<close>; it calls
  itself on every specialization, without end on a cyclic graph. The first argument is
  the number of nested calls the interpreter still allows; when it is used up the run
  ends with RecursionError. \<open>tag_child\<close> is the loop over \<open>me.specialization\<close>.
  \<open>sType\<close> is the key of the stereotype's classifier.
\<close>

fun tag_children :: "nat \<Rightarrow> string \<Rightarrow> string \<Rightarrow> state \<Rightarrow> error + state"
  and tag_child :: "nat \<Rightarrow> string \<Rightarrow> pyval list \<Rightarrow> state \<Rightarrow> error + state" where
  "tag_children 0 sType me st = Inl RecursionError"
| "tag_children (Suc n) sType me st =
     (case py_iter (getattr (obj (heap st) me) ''specialization'') of
        Inl e \<Rightarrow> Inl e
      | Inr children \<Rightarrow> tag_child n sType children st)"
| "tag_child n sType [] st = Inr st"
| "tag_child n sType (child # rest) st =
     (case child of
        PObj c \<Rightarrow>
          (let st1 = assign c ''stereotypeName'' (getattr (obj (heap st) sType) ''name'') st;
                   st2 = emit (Add_comment [PStr (''class '' @ apostrophe),
                       getattr (obj (heap st1) c) ''name'',
                       PStr (apostrophe @ '' has been stereotyped as '' @ apostrophe),
                       getattr (obj (heap st1) c) ''stereotypeName'',
                       PStr (apostrophe @ '' too'')]) st1
           in case tag_children n sType c st2 of
                Inl e \<Rightarrow> Inl e
              | Inr st3 \<Rightarrow> tag_child n sType rest st3)
      | _ \<Rightarrow> Inl AttributeError)"

text \<open>\<open>class_stereotype\<close> is the body of the loop of \<open>enrich_classes_with_stereotypes\<close>
  for the class under \<open>c\<close>; \<open>limit\<close> is the recursion depth available to
  \<open>tag_children\<close>.\<close>

definition class_stereotype :: "nat \<Rightarrow> string list \<Rightarrow> string \<Rightarrow> state \<Rightarrow> error + state" where
  "class_stereotype limit all_keys c st =
     (if truthy (get (obj (heap st) c) ''appliedStereotype'')
      then
        bindE (index0 (getattr (obj (heap st) c) ''appliedStereotype'')) (\<lambda>r.
        bindE (dict_getitem all_keys r) (\<lambda>instSpec.
        bindE (index0 (getattr (obj (heap st) instSpec) ''classifier'')) (\<lambda>r'.
        bindE (dict_getitem all_keys r') (\<lambda>sType.
        let st1 = assign c ''stereotypeName'' (getattr (obj (heap st) sType) ''name'') st;
            st2 = emit (Add_comment [PStr (''class '' @ apostrophe),
                    getattr (obj (heap st1) c) ''name'',
                    PStr (apostrophe @ '' has been stereotyped as '' @ apostrophe),
                    getattr (obj (heap st1) c) ''stereotypeName'', PStr apostrophe]) st1
        in tag_children limit sType c st2))))
      else Inr st)"

definition enrich_classes_with_stereotypes ::
  "nat \<Rightarrow> string list \<Rightarrow> string list \<Rightarrow> state \<Rightarrow> error + state" where
  "enrich_classes_with_stereotypes limit cls all_keys st =
     for_each (class_stereotype limit all_keys) cls st"

fun map_err :: "('a \<Rightarrow> error + 'b) \<Rightarrow> 'a list \<Rightarrow> error + 'b list" where
  "map_err f [] = Inr []"
| "map_err f (x # xs) = bindE (f x) (\<lambda>y. bindE (map_err f xs) (\<lambda>ys. Inr (y # ys)))"

text \<open>\<open>enumeration_values\<close> is the body of the loop of \<open>enrich_enumerations_with_values\<close>
  for the enumeration under \<open>e\<close>.\<close>

definition enumeration_values :: "string list \<Rightarrow> string \<Rightarrow> heap \<Rightarrow> error + heap" where
  "enumeration_values props e h =
     bindE (py_iter (getitem (obj h e) ''ownedAttribute'')) (\<lambda>keys.
     bindE (map_err (\<lambda>key. bindE (dict_getitem props key) (\<lambda>p.
                              py_str (getitem (obj h p) ''name''))) keys) (\<lambda>names.
     Inr (setattr h e ''enumerates'' (PTuple (map PStr names)))))"

definition enrich_enumerations_with_values ::
  "string list \<Rightarrow> string list \<Rightarrow> heap \<Rightarrow> error + heap" where
  "enrich_enumerations_with_values enums props h = for_each (enumeration_values props) enums h"

subsection \<open>Sorting the elements into buckets (lines 220 to 278)\<close>

text \<open>
  \<open>resolve\<close> is the nested function of \<open>generate\<close>: it replaces the identifiers held by a
  reference field with the objects they name in \<open>all_elements\<close>, and records an absent
  field as \<open>None\<close>.
\<close>

definition resolve :: "string list \<Rightarrow> pyval \<Rightarrow> string \<Rightarrow> heap \<Rightarrow> error + heap" where
  "resolve all_keys val attr h =
     (case val of
        PObj k \<Rightarrow>
          (case map_of (references_dict (obj h k)) attr of
             None \<Rightarrow> Inr (set_reference h k attr PNone)
           | Some (PList rs) \<Rightarrow>
               bindE (map_err (dict_getitem all_keys) rs) (\<lambda>unrefs.
               Inr (set_reference h k attr (PList (map PObj unrefs))))
           | Some refs \<Rightarrow>
               bindE (dict_getitem all_keys refs) (\<lambda>r. Inr (set_reference h k attr (PObj r))))
      | _ \<Rightarrow> Inl AttributeError)"

definition resolve_slot :: "string list \<Rightarrow> pyval \<Rightarrow> heap \<Rightarrow> error + heap" where
  "resolve_slot all_keys slot h =
     bindE (resolve all_keys slot ''value'' h) (resolve all_keys slot ''definingFeature'')"

definition resolve_stereotype :: "string list \<Rightarrow> pyval \<Rightarrow> heap \<Rightarrow> error + heap" where
  "resolve_stereotype all_keys st h =
     bindE (resolve all_keys st ''slot'' h) (\<lambda>h1.
     bindE (attr_of h1 st ''slot'') (\<lambda>slots.
     bindE (py_iter (py_or slots (PList []))) (\<lambda>items.
     for_each (resolve_slot all_keys) items h1)))"

text \<open>\<open>sort_element\<close> is the body of the loop over \<open>all_elements.items()\<close>.\<close>

definition sort_element ::
  "string list \<Rightarrow> string \<Rightarrow> buckets \<times> heap \<Rightarrow> error + buckets \<times> heap" where
  "sort_element all_keys key bh =
     (case bh of (b, h) \<Rightarrow>
      let val = obj h key in
      if \<not> is_element val then Inr (b, h)
      else if getattr val ''type'' = PStr ''Class'' \<and> truthy (get val ''name'') then
        bindE (py_endswith (getitem val ''name'') ''Kind'') (\<lambda>kind.
        bindE (if kind then Inr True else py_endswith (getitem val ''name'') ''Sort'') (\<lambda>enum.
        if enum then Inr (b\<lparr>enumerations := dict_setitem (enumerations b) key\<rparr>, h)
        else
          let h1 = setattr h key ''specialization'' (PList []);
              h2 = setattr h1 key ''generalization'' (PList []);
              h3 = setattr h2 key ''stereotypeName'' PNone;
              h4 = setattr h3 key ''written'' (PBool False)
          in Inr (b\<lparr>classes := dict_setitem (classes b) key\<rparr>, h4)))
      else if getattr val ''type'' = PStr ''Generalization'' then
        Inr (b\<lparr>generalizations := dict_setitem (generalizations b) key\<rparr>, h)
      else if getattr val ''type'' = PStr ''Association'' then
        Inr (b\<lparr>associations := dict_setitem (associations b) key\<rparr>,
             setattr h key ''asAttribute'' PNone)
      else if getattr val ''type'' = PStr ''Property'' then
        bindE (resolve all_keys (PObj key) ''appliedStereotype'' h) (\<lambda>h1.
        bindE (py_iter (py_or (getattr (obj h1 key) ''appliedStereotype'') (PList []))) (\<lambda>items.
        bindE (for_each (resolve_stereotype all_keys) items h1) (\<lambda>h2.
        Inr (b\<lparr>properties := dict_setitem (properties b) key\<rparr>,
             setattr h2 key ''written'' (PBool False)))))
      else if getattr val ''type'' = PStr ''Operation'' then
        Inr (b\<lparr>operations := dict_setitem (operations b) key\<rparr>, h)
      else if getattr val ''type'' = PStr ''Extension'' then
        Inr (b\<lparr>extensions := dict_setitem (extensions b) key\<rparr>, h)
      else Inr (b, h))"

subsection \<open>Class definitions and attributes (lines 288 to 302)\<close>

text \<open>A loop that only calls the writer appends one call per item.\<close>

definition add_classdefs :: "string list \<Rightarrow> state \<Rightarrow> state" where
  "add_classdefs cls st = st\<lparr>trace := trace st @ map (\<lambda>c. Add_classdef c (obj (heap st) c)) cls\<rparr>"

text \<open>
  \<open>owned_attribute\<close> is the body of the inner loop for the entry \<open>p\<close> of the
  \<open>ownedAttribute\<close> of the class under \<open>c\<close>; \<open>class_attributes\<close> is the body of the
  outer loop. \<open>enums\<close> and \<open>props\<close> are the dictionaries \<open>enumerations\<close> and
  \<open>properties\<close>.
\<close>

definition owned_attribute ::
  "(string \<Rightarrow> bool) \<Rightarrow> string list \<Rightarrow> string list \<Rightarrow> string \<Rightarrow> pyval \<Rightarrow> state \<Rightarrow> error + state" where
  "owned_attribute derives enums props c p st =
     bindE (dict_get props p) (\<lambda>a.
     case a of
       PObj k \<Rightarrow>
         (let st1 = assign k ''class_name'' (getitem (obj (heap st) c) ''name'') st in
          if \<not> truthy (get (obj (heap st1) k) ''association'')
          then bindE (qualified_name (getattr (obj (heap st1) k) ''class_name'')
                        (getattr (obj (heap st1) k) ''name'')) (\<lambda>q.
               if derives q
               then bindE (as_key (getattr (obj (heap st1) k) ''name'')) (\<lambda>n.
                    Inr (st1\<lparr>derivedattributes := AList.update n k (derivedattributes st1)\<rparr>))
               else Inr (emit (Add_attribute k (obj (heap st1) k) (Some enums)) st1))
          else Inr st1)
     | _ \<Rightarrow> Inl AttributeError)"

definition class_attributes ::
  "(string \<Rightarrow> bool) \<Rightarrow> string list \<Rightarrow> string list \<Rightarrow> string \<Rightarrow> state \<Rightarrow> error + state" where
  "class_attributes derives enums props c st =
     bindE (py_iter (py_or (get (obj (heap st) c) ''ownedAttribute'') (PList []))) (\<lambda>items.
     for_each (owned_attribute derives enums props c) items st)"

subsection \<open>Associations (lines 304 to 338)\<close>

text \<open>\<open>name_get\<close> is \<open>d.get(k)\<close> and \<open>name_getitem\<close> is \<open>d[k]\<close> on a dictionary keyed
  by name.\<close>

definition name_get :: "(pyval \<times> string) list \<Rightarrow> pyval \<Rightarrow> error + string option" where
  "name_get d k = bindE (as_key k) (\<lambda>k'. Inr (map_of d k'))"

definition name_getitem :: "(pyval \<times> string) list \<Rightarrow> pyval \<Rightarrow> error + string" where
  "name_getitem d k = bindE (as_key k) (\<lambda>k'.
     case map_of d k' of Some v \<Rightarrow> Inr v | None \<Rightarrow> Inl KeyError)"

text \<open>
  \<open>is_derived_end\<close> is the condition of lines 327 to 329:
  \<open>e1.derived or overrides.derives(f"{e1.get('class_name')}.{e1.get('name')}")\<close>. The
  policy is asked only when \<open>derived\<close> is false, and about the fields \<open>class_name\<close> and
  \<open>name\<close> as \<open>get\<close> finds them.
\<close>

definition is_derived_end :: "(string \<Rightarrow> bool) \<Rightarrow> element \<Rightarrow> error + bool" where
  "is_derived_end derives x =
     (if truthy (getattr x ''derived'') then Inr True
      else bindE (qualified_name (get x ''class_name'') (get x ''name''))
             (\<lambda>q. Inr (derives q)))"

text \<open>
  \<open>classify_end\<close> is the body of the second loop over the two orientations
  (lines 313 to 338) for the association under \<open>a\<close> and the ends under \<open>e1\<close> and \<open>e2\<close>.
\<close>

definition classify_end ::
  "(string \<Rightarrow> bool) \<Rightarrow> string list \<Rightarrow> string \<Rightarrow> string \<Rightarrow> string \<Rightarrow> state \<Rightarrow> error + state" where
  "classify_end derives enums a e1 e2 st =
     (if getattr (obj (heap st) a) ''asAttribute'' \<noteq> PNone then
        if getattr (obj (heap st) a) ''asAttribute'' = PObj e1 \<and> truthy (getattr (obj (heap st) e1) ''navigable'')
        then
          bindE (attr_of (heap st) (getattr (obj (heap st) e2) ''type'') ''name'') (\<lambda>type_name.
          let st1 = emit (Add_comment [PStr apostrophe, type_name, PStr ''.'',
                      getattr (obj (heap st) e1) ''name'',
                      PStr (apostrophe @ '' is a simple attribute'')]) st;
              st2 = assign e1 ''class_name'' type_name st1;
              st3 = assign e1 ''typeValue'' (PStr ''str'') st2;
              st4 = emit (Add_attribute e1 (obj (heap st3) e1) (Some enums)) st3;
              st5 = assign e1 ''written'' (PBool True) st4
          in Inr (assign e2 ''written'' (PBool True) st5))
        else Inr st
      else if truthy (getattr (obj (heap st) e1) ''redefines'') then
        Inr (st\<lparr>redefines := redefines st @ [e1]\<rparr>)
      else
        bindE (is_derived_end derives (obj (heap st) e1)) (\<lambda>is_derived.
        if is_derived then
          bindE (name_get (derivedunions st) (getattr (obj (heap st) e1) ''name'')) (\<lambda>registered.
          case registered of
            Some d \<Rightarrow>
              Inl (AssertionError_derived (getattr (obj (heap st) e1) ''class_name'')
                     (getattr (obj (heap st) e1) ''name'') (getattr (obj (heap st) d) ''class_name''))
          | None \<Rightarrow>
              bindE (as_key (getattr (obj (heap st) e1) ''name'')) (\<lambda>n.
              let st1 = st\<lparr>derivedunions := AList.update n e1 (derivedunions st)\<rparr>;
                  st2 = assign e1 ''union'' (PList []) st1
              in Inr (assign e1 ''written'' (PBool False) st2)))
        else if truthy (getattr (obj (heap st) e1) ''navigable'') then
          Inr (emit (Add_association e1 (obj (heap st) e1) e2 (obj (heap st) e2)) st)
        else Inr st))"

text \<open>
  \<open>resolve_association\<close> is the body of the loop over the associations (lines 307 to
  338): the ends are looked up in \<open>all_classes\<close>, each is enriched with the other as its
  tail, and each is classified. \<open>ends[0]\<close> and \<open>ends[1]\<close> raise IndexError on a tuple
  with fewer than two ends.
\<close>

definition resolve_association ::
  "(string \<Rightarrow> bool) \<Rightarrow> string list \<Rightarrow> string list \<Rightarrow> string list \<Rightarrow> string \<Rightarrow> state \<Rightarrow> error + state" where
  "resolve_association derives enums props all_classes a st =
     bindE (get_association_ends a props all_classes (heap st)) (\<lambda>(h1, ends).
     case ends of
       end0 # end1 # _ \<Rightarrow>
         bindE (parse_association_end end0 end1 h1) (\<lambda>h2.
         bindE (parse_association_end end1 end0 h2) (\<lambda>h3.
         bindE (classify_end derives enums a end0 end1 (st\<lparr>heap := h3\<rparr>)) (\<lambda>st4.
         classify_end derives enums a end1 end0 st4)))
     | _ \<Rightarrow> Inl IndexError)"

subsection \<open>Linking subsets to derived unions (lines 340 to 347)\<close>

text \<open>
  \<open>link_subset\<close> is the body of the inner loop for the property under \<open>a\<close> and the entry
  \<open>s\<close> of its \<open>subsets\<close>: the \<open>try\<close> block, and the handler that turns a KeyError into
  a notice. \<open>cls\<close> is the dictionary of the retained classes.
\<close>

definition link_subset :: "string list \<Rightarrow> string \<Rightarrow> pyval \<Rightarrow> state \<Rightarrow> error + state" where
  "link_subset cls a s st =
     (case bindE (dict_contains cls (getitem (obj (heap st) a) ''type'')) (\<lambda>retained.
             if retained
             then bindE (name_getitem (derivedunions st) s) (\<lambda>d.
                  bindE (list_append (heap st) d ''union'' (PObj a)) (\<lambda>h.
                  Inr (st\<lparr>heap := h\<rparr>)))
             else Inr st) of
        Inl KeyError \<Rightarrow>
          Inr (emit (Msg [PStr ''not a derived union: '', getattr (obj (heap st) a) ''class_name'',
                          PStr ''.'', s]) st)
      | r \<Rightarrow> r)"

definition property_subsets :: "string list \<Rightarrow> string \<Rightarrow> state \<Rightarrow> error + state" where
  "property_subsets cls a st =
     bindE (py_iter (py_or (getattr (obj (heap st) a) ''subsets'') (PTuple []))) (\<lambda>items.
     for_each (link_subset cls a) items st)"

definition link_derivedunions :: "string list \<Rightarrow> string list \<Rightarrow> state \<Rightarrow> error + state" where
  "link_derivedunions cls props st = for_each (property_subsets cls) props st"

subsection \<open>Emission (lines 352 to 369) and the whole run\<close>

definition add_derivedattributes :: "state \<Rightarrow> state" where
  "add_derivedattributes st =
     st\<lparr>trace := trace st @
          map (\<lambda>d. Add_attribute d (obj (heap st) d) None) (map snd (derivedattributes st))\<rparr>"

definition add_derivedunions :: "state \<Rightarrow> state" where
  "add_derivedunions st =
     st\<lparr>trace := trace st @
          map (\<lambda>d. Add_derivedunion d (obj (heap st) d)) (map snd (derivedunions st))\<rparr>"

definition redefine_calls :: "heap \<Rightarrow> string \<Rightarrow> event list" where
  "redefine_calls h r =
     [Msg [PStr ''redefining '', getattr (obj h r) ''redefines'', PStr '' -> '',
           getattr (obj h r) ''class_name'', PStr ''.'', getattr (obj h r) ''name''],
      Add_redefine r (obj h r)]"

definition add_redefines :: "state \<Rightarrow> state" where
  "add_redefines st =
     st\<lparr>trace := trace st @ concat (map (redefine_calls (heap st)) (redefines st))\<rparr>"

text \<open>\<open>owned_operation\<close> and \<open>class_operations\<close> are the inner and outer loop bodies of
  lines 363 to 367; \<open>ops\<close> is the dictionary \<open>operations\<close>.\<close>

definition owned_operation :: "string list \<Rightarrow> string \<Rightarrow> pyval \<Rightarrow> state \<Rightarrow> error + state" where
  "owned_operation ops c p st =
     bindE (dict_get ops p) (\<lambda>operation.
     case operation of
       PObj k \<Rightarrow>
         (let st1 = assign k ''class_name'' (getitem (obj (heap st) c) ''name'') st
          in Inr (emit (Add_operation k (obj (heap st1) k)) st1))
     | _ \<Rightarrow> Inl AttributeError)"

definition class_operations :: "string list \<Rightarrow> string \<Rightarrow> state \<Rightarrow> error + state" where
  "class_operations ops c st =
     bindE (py_iter (py_or (get (obj (heap st) c) ''ownedOperation'') (PTuple []))) (\<lambda>items.
     for_each (owned_operation ops c) items st)"

definition empty_buckets :: buckets where
  "empty_buckets = \<lparr>classes = [], enumerations = [], generalizations = [], associations = [],
     properties = [], operations = [], extensions = []\<rparr>"

text \<open>
  \<open>generate\<close>, from the parsed file on: \<open>all_elements\<close> is the dictionary that
  \<open>parse(filename)\<close> returns, \<open>derives\<close> is the
  override policy read from the overrides file, \<open>limit\<close> the recursion depth available
  to \<open>tag_children\<close>. The final state holds the calls the writer received.
\<close>

definition generate :: "(string \<Rightarrow> bool) \<Rightarrow> nat \<Rightarrow> heap \<Rightarrow> error + state" where
  "generate derives limit all_elements =
     (let all_keys = map fst all_elements in
     bindE (for_each (sort_element all_keys) all_keys (empty_buckets, all_elements)) (\<lambda>(b, h0).
     bindE (enrich_enumerations_with_values (enumerations b) (properties b) h0) (\<lambda>h1.
     bindE (enrich_classes_with_generalizations (classes b) (generalizations b) h1) (\<lambda>h2.
     bindE (enrich_classes_with_stereotypes limit (classes b) all_keys
              \<lparr>heap = h2, trace = [], derivedattributes = [], derivedunions = [],
               redefines = []\<rparr>) (\<lambda>st3.
     bindE (filter_out_metaclasses (classes b) (extensions b) all_keys (heap st3))
       (\<lambda>(all_classes, h4).
     let cls = filter_out_simple_attributes h4 all_classes;
         st5 = add_classdefs cls (st3\<lparr>heap := h4\<rparr>)
     in
     bindE (for_each (class_attributes derives (enumerations b) (properties b)) cls st5) (\<lambda>st6.
     bindE (for_each (resolve_association derives (enumerations b) (properties b) all_classes)
              (associations b) st6) (\<lambda>st7.
     bindE (link_derivedunions cls (properties b) st7) (\<lambda>st8.
     let st9 = add_derivedattributes st8;
         st10 = add_derivedunions st9;
         st11 = add_redefines st10
     in
     bindE (for_each (class_operations (operations b)) cls st11) (\<lambda>st12.
     Inr (emit Write_output st12)))))))))))"

section \<open>Notions used to state the properties\<close>

subsection \<open>Multiplicities and the no-name error\<close>

text \<open>
  The bounds that lines 129 to 132 compute from the raw fields of an end, and the pair
  \<open>(lower, upper)\<close> that a call of \<open>parse_association_end\<close> leaves on the end.
\<close>

definition upper_bound :: "element \<Rightarrow> pyval" where
  "upper_bound x = py_or (getattr x ''upperValue'') (PStr ''*'')"

definition lower_bound :: "element \<Rightarrow> pyval" where
  "lower_bound x =
     (let lower = py_or (getattr x ''lowerValue'') (upper_bound x)
      in if lower = PStr ''*'' then PInt 0 else lower)"

definition resolved_bounds :: "string \<Rightarrow> error + heap \<Rightarrow> error + pyval \<times> pyval" where
  "resolved_bounds head r =
     bindE r (\<lambda>h. Inr (getattr (obj h head) ''lower'', getattr (obj h head) ''upper''))"

text \<open>The fatal error of \<open>parse_association_end\<close>: "no name, but navigable".\<close>

fun is_no_name :: "error \<Rightarrow> bool" where
  "is_no_name (ValueError_no_name i c n) = True"
| "is_no_name e = False"

definition raises_no_name :: "error + 'a \<Rightarrow> bool" where
  "raises_no_name r = (case r of Inl e \<Rightarrow> is_no_name e | Inr x \<Rightarrow> False)"

subsection \<open>Example models\<close>

text \<open>
  \<open>parsed i t vs rs\<close> is the object the parser builds for an element with identifier
  \<open>i\<close>, type tag \<open>t\<close>, scalar fields \<open>vs\<close> and reference fields \<open>rs\<close>.
\<close>

definition parsed ::
  "string \<Rightarrow> string \<Rightarrow> (string \<times> string) list \<Rightarrow> (string \<times> pyval) list \<Rightarrow> element" where
  "parsed i t vs rs = \<lparr>is_element = True, values_dict = vs, references_dict = rs,
     attrs_dict = [(''id'', PStr i), (''type'', PStr t)]\<rparr>"

text \<open>
  A class \<open>Node\<close> with a composite association to itself: the end \<open>children\<close> is owned by
  the class, the opposite end \<open>parent\<close> is not; \<open>anon\<close> is a further end that is owned by
  the class and has no name. The objects are as \<open>get_association_ends\<close> leaves them
  (\<open>type\<close> and \<open>class_\<close> hold the class).
\<close>

definition node_ends :: heap where
  "node_ends =
    [(''node'',
      \<lparr>is_element = True, values_dict = [(''name'', ''Node'')], references_dict = [],
       attrs_dict = [(''id'', PStr ''node''), (''type'', PStr ''Class''),
         (''stereotypeName'', PNone)]\<rparr>),
     (''children'',
      \<lparr>is_element = True,
       values_dict = [(''name'', ''children''), (''aggregation'', ''composite'')],
       references_dict = [(''type'', PStr ''node''), (''class_'', PStr ''node'')],
       attrs_dict = [(''id'', PStr ''children''), (''type'', PObj ''node''),
         (''class_'', PObj ''node''), (''is_simple_attribute'', PBool False)]\<rparr>),
     (''parent'',
      \<lparr>is_element = True, values_dict = [],
       references_dict = [(''type'', PStr ''node'')],
       attrs_dict = [(''id'', PStr ''parent''), (''type'', PObj ''node''),
         (''class_'', PNone), (''is_simple_attribute'', PBool False)]\<rparr>),
     (''anon'',
      \<lparr>is_element = True, values_dict = [],
       references_dict = [(''type'', PStr ''node''), (''class_'', PStr ''node'')],
       attrs_dict = [(''id'', PStr ''anon''), (''type'', PObj ''node''),
         (''class_'', PObj ''node''), (''is_simple_attribute'', PBool False)]\<rparr>)]"

text \<open>
  An end \<open>flag\<close> that is owned by the class \<open>Node\<close> and has a name, and whose \<open>isDerived\<close>
  field holds the text \<open>true\<close>, which is no integer literal; \<open>back\<close> is the opposite end.
  The objects are again as \<open>get_association_ends\<close> leaves them.
\<close>

definition flag_ends :: heap where
  "flag_ends =
    [(''node'',
      \<lparr>is_element = True, values_dict = [(''name'', ''Node'')], references_dict = [],
       attrs_dict = [(''id'', PStr ''node''), (''type'', PStr ''Class''),
         (''stereotypeName'', PNone)]\<rparr>),
     (''flag'',
      \<lparr>is_element = True,
       values_dict = [(''name'', ''flag''), (''isDerived'', ''true'')],
       references_dict = [(''type'', PStr ''node''), (''class_'', PStr ''node'')],
       attrs_dict = [(''id'', PStr ''flag''), (''type'', PObj ''node''),
         (''class_'', PObj ''node''), (''is_simple_attribute'', PBool False)]\<rparr>),
     (''back'',
      \<lparr>is_element = True, values_dict = [],
       references_dict = [(''type'', PStr ''node'')],
       attrs_dict = [(''id'', PStr ''back''), (''type'', PObj ''node''),
         (''class_'', PNone), (''is_simple_attribute'', PBool False)]\<rparr>)]"

subsection \<open>Metaclass removal\<close>

text \<open>
  \<open>typed_key h v\<close> is the key of the member end \<open>v\<close> when that end has a \<open>type\<close>.
  \<open>metaclass h e\<close> is the identifier of the type of the first member end of the Extension
  \<open>e\<close> that has a type: the one class an Extension can make \<open>filter_out_metaclasses\<close>
  delete. \<open>remaining_classes\<close> is the class dictionary a call returns.
\<close>

definition typed_key :: "heap \<Rightarrow> pyval \<Rightarrow> string option" where
  "typed_key h v =
     (case v of PStr k \<Rightarrow> if truthy (getitem (obj h k) ''type'') then Some k else None
      | _ \<Rightarrow> None)"

definition metaclass :: "heap \<Rightarrow> string \<Rightarrow> pyval option" where
  "metaclass h e =
     (case py_iter (getattr (obj h e) ''memberEnd'') of
        Inl err \<Rightarrow> None
      | Inr items \<Rightarrow>
          (case List.map_filter (typed_key h) items of
             [] \<Rightarrow> None
           | k # ks \<Rightarrow>
               (case getitem (obj h k) ''type'' of
                  PStr t \<Rightarrow> Some (getattr (obj h t) ''id'')
                | _ \<Rightarrow> None)))"

definition remaining_classes :: "error + string list \<times> heap \<Rightarrow> error + string list" where
  "remaining_classes r = bindE r (\<lambda>(cls, h). Inr cls)"

text \<open>
  Two stores agree up to what \<open>filter_out_metaclasses\<close> assigns: the fields are the
  same, and so are the attributes other than \<open>type\<close> and, on the Extensions in \<open>P\<close>,
  \<open>memberEnd\<close>.
\<close>

definition agree :: "string set \<Rightarrow> heap \<Rightarrow> heap \<Rightarrow> bool" where
  "agree P h h' \<longleftrightarrow>
     (\<forall>x key. getitem (obj h' x) key = getitem (obj h x) key) \<and>
     (\<forall>x key. key \<noteq> ''type'' \<and> (key = ''memberEnd'' \<longrightarrow> x \<notin> P) \<longrightarrow>
        getattr (obj h' x) key = getattr (obj h x) key)"

text \<open>
  A profile: the stereotype \<open>Tagged\<close> (an element that is no class), the classes \<open>Meta\<close>
  and \<open>Other\<close>, and two Extensions. The first typed end of \<open>ext\<close> points at the
  stereotype; both ends of \<open>ext2\<close> point at classes.
\<close>

definition extension_model :: heap where
  "extension_model =
    [(''stereo'', parsed ''stereo'' ''Stereotype'' [(''name'', ''Tagged'')] []),
     (''meta'', parsed ''meta'' ''Class'' [(''name'', ''Meta'')] []),
     (''other'', parsed ''other'' ''Class'' [(''name'', ''Other'')] []),
     (''e1'', parsed ''e1'' ''Property'' [] [(''type'', PStr ''stereo'')]),
     (''e2'', parsed ''e2'' ''Property'' [] [(''type'', PStr ''meta'')]),
     (''e3'', parsed ''e3'' ''Property'' [] [(''type'', PStr ''other'')]),
     (''ext'', parsed ''ext'' ''Extension'' []
        [(''memberEnd'', PList [PStr ''e1'', PStr ''e2''])]),
     (''ext2'', parsed ''ext2'' ''Extension'' []
        [(''memberEnd'', PList [PStr ''e2'', PStr ''e3''])])]"

subsection \<open>Classification of an association end\<close>

text \<open>
  The five outcomes, and the one that the chain of lines 314 to 338 selects for the end
  \<open>e1\<close> of the association \<open>a\<close> in the state \<open>st\<close>: the conditions are tried in the order
  simple attribute, redefinition, derived union member, plain association, and an end
  that meets none of them is dropped as non-navigable.
\<close>

datatype outcome = NonNavigable | SimpleAttribute | Redefinition | DerivedUnionMember | PlainAssociation

definition settled :: "(string \<Rightarrow> bool) \<Rightarrow> state \<Rightarrow> string \<Rightarrow> string \<Rightarrow> error + outcome" where
  "settled derives st a e1 =
     (if getattr (obj (heap st) a) ''asAttribute'' \<noteq> PNone then Inr SimpleAttribute
      else if truthy (getattr (obj (heap st) e1) ''redefines'') then Inr Redefinition
      else bindE (is_derived_end derives (obj (heap st) e1)) (\<lambda>d.
             if d then Inr DerivedUnionMember
             else if truthy (getattr (obj (heap st) e1) ''navigable'') then Inr PlainAssociation
             else Inr NonNavigable))"

text \<open>
  What each outcome does to the state. \<open>simple_attribute_calls\<close> are the comment and the
  attribute call (with \<open>class_name\<close> and \<open>typeValue\<close> as assigned just before it) of a
  simple attribute, after which both ends are marked written.
\<close>

definition simple_attribute_calls :: "string list \<Rightarrow> string \<Rightarrow> string \<Rightarrow> state \<Rightarrow> state \<Rightarrow> bool" where
  "simple_attribute_calls enums e1 e2 st st' \<longleftrightarrow>
     (\<exists>type_name.
        attr_of (heap st) (getattr (obj (heap st) e2) ''type'') ''name'' = Inr type_name \<and>
        trace st' = trace st @
          [Add_comment [PStr apostrophe, type_name, PStr ''.'', getattr (obj (heap st) e1) ''name'',
             PStr (apostrophe @ '' is a simple attribute'')],
           Add_attribute e1
             (obj (setattr (setattr (heap st) e1 ''class_name'' type_name) e1 ''typeValue''
                (PStr ''str'')) e1)
             (Some enums)] \<and>
        getattr (obj (heap st') e1) ''written'' = PBool True \<and>
        getattr (obj (heap st') e2) ''written'' = PBool True)"

fun settles :: "outcome \<Rightarrow> string list \<Rightarrow> string \<Rightarrow> string \<Rightarrow> string \<Rightarrow> state \<Rightarrow> state \<Rightarrow> bool" where
  "settles NonNavigable enums a e1 e2 st st' \<longleftrightarrow> st' = st"
| "settles SimpleAttribute enums a e1 e2 st st' \<longleftrightarrow>
     (if getattr (obj (heap st) a) ''asAttribute'' = PObj e1 \<and>
         truthy (getattr (obj (heap st) e1) ''navigable'')
      then simple_attribute_calls enums e1 e2 st st'
      else st' = st)"
| "settles Redefinition enums a e1 e2 st st' \<longleftrightarrow> st' = st\<lparr>redefines := redefines st @ [e1]\<rparr>"
| "settles DerivedUnionMember enums a e1 e2 st st' \<longleftrightarrow>
     derivedunions st' = derivedunions st @ [(getattr (obj (heap st) e1) ''name'', e1)] \<and>
     getattr (obj (heap st') e1) ''union'' = PList [] \<and>
     trace st' = trace st \<and> redefines st' = redefines st"
| "settles PlainAssociation enums a e1 e2 st st' \<longleftrightarrow>
     st' = emit (Add_association e1 (obj (heap st) e1) e2 (obj (heap st) e2)) st"

text \<open>Which of the writer's calls, the derived unions and the redefinitions a step
  changed.\<close>

definition changes :: "state \<Rightarrow> state \<Rightarrow> bool list" where
  "changes st st' =
     [trace st' \<noteq> trace st, derivedunions st' \<noteq> derivedunions st, redefines st' \<noteq> redefines st]"

text \<open>Two override policies: one that declares nothing derived, one that declares every
  name derived. \<open>initial h\<close> is the state of a run with the store \<open>h\<close> and nothing
  emitted or collected.\<close>

definition no_overrides :: "string \<Rightarrow> bool" where
  "no_overrides q = False"

definition every_name_derived :: "string \<Rightarrow> bool" where
  "every_name_derived q = True"

definition initial :: "heap \<Rightarrow> state" where
  "initial h = \<lparr>heap = h, trace = [], derivedattributes = [], derivedunions = [], redefines = []\<rparr>"

text \<open>
  The parsed model of the class \<open>Node\<close> and its composite association; \<open>node_assoc\<close> is
  \<open>node_ends\<close> with the association object, and \<open>node_state\<close> the state once
  \<open>parse_association_end\<close> has enriched both ends.
\<close>

definition node_model :: heap where
  "node_model =
    [(''node'', parsed ''node'' ''Class'' [(''name'', ''Node'')]
        [(''ownedAttribute'', PList [PStr ''children''])]),
     (''children'', parsed ''children'' ''Property''
        [(''name'', ''children''), (''aggregation'', ''composite'')]
        [(''type'', PStr ''node''), (''class_'', PStr ''node''), (''association'', PStr ''a'')]),
     (''parent'', parsed ''parent'' ''Property'' []
        [(''type'', PStr ''node''), (''association'', PStr ''a'')]),
     (''a'', parsed ''a'' ''Association'' []
        [(''memberEnd'', PList [PStr ''children'', PStr ''parent''])])]"

definition node_assoc :: heap where
  "node_assoc = node_ends @ [(''a'', \<lparr>is_element = True, values_dict = [],
       references_dict = [(''memberEnd'', PList [PStr ''children'', PStr ''parent''])],
       attrs_dict = [(''id'', PStr ''a''), (''type'', PStr ''Association''),
         (''asAttribute'', PNone)]\<rparr>)]"

definition node_state :: state where
  "node_state =
     (case bindE (parse_association_end ''children'' ''parent'' node_assoc)
             (parse_association_end ''parent'' ''children'') of
        Inr h \<Rightarrow> initial h
      | Inl e \<Rightarrow> initial [])"

text \<open>The ends registered as derived unions by a run, each with its key and its
  \<open>navigable\<close> attribute.\<close>

definition registered_ends :: "error + state \<Rightarrow> error + (pyval \<times> string \<times> pyval) list" where
  "registered_ends r =
     bindE r (\<lambda>st. Inr (map (\<lambda>(n, k). (n, k, getattr (obj (heap st) k) ''navigable''))
                          (derivedunions st)))"

subsection \<open>Looking up the types of ends\<close>

text \<open>A reference field that holds one identifier or is absent.\<close>

fun single_ref :: "pyval \<Rightarrow> bool" where
  "single_ref PNone = True"
| "single_ref (PStr s) = True"
| "single_ref v = False"

text \<open>
  The scenario of the simple attribute: a class \<open>Box\<close>, a class \<open>Color\<close> that carries the
  stereotype \<open>SimpleAttribute\<close> (through the instance \<open>is\<close> of the stereotype \<open>st\<close>), and
  an association whose end \<open>color\<close> (\<open>p1\<close>) is owned by \<open>Box\<close> and typed by \<open>Color\<close>; the
  opposite end \<open>p2\<close> is typed by \<open>Box\<close> and owned by the association. \<open>box_model\<close> is
  the parsed file; \<open>box_ends\<close> holds the same classes and ends as they are when
  \<open>get_association_ends\<close> is called.
\<close>

definition box_model :: heap where
  "box_model =
    [(''box'', parsed ''box'' ''Class'' [(''name'', ''Box'')]
        [(''ownedAttribute'', PList [PStr ''p1''])]),
     (''color'', parsed ''color'' ''Class'' [(''name'', ''Color'')]
        [(''appliedStereotype'', PList [PStr ''is''])]),
     (''is'', parsed ''is'' ''InstanceSpecification'' [] [(''classifier'', PList [PStr ''st''])]),
     (''st'', parsed ''st'' ''Stereotype'' [(''name'', ''SimpleAttribute'')] []),
     (''p1'', parsed ''p1'' ''Property'' [(''name'', ''color'')]
        [(''type'', PStr ''color''), (''class_'', PStr ''box''), (''association'', PStr ''a1'')]),
     (''p2'', parsed ''p2'' ''Property'' []
        [(''type'', PStr ''box''), (''association'', PStr ''a1'')]),
     (''a1'', parsed ''a1'' ''Association'' []
        [(''memberEnd'', PList [PStr ''p1'', PStr ''p2''])])]"

definition box_ends :: heap where
  "box_ends =
    [(''box'',
      \<lparr>is_element = True, values_dict = [(''name'', ''Box'')], references_dict = [],
       attrs_dict = [(''id'', PStr ''box''), (''type'', PStr ''Class''),
         (''stereotypeName'', PNone)]\<rparr>),
     (''color'',
      \<lparr>is_element = True, values_dict = [(''name'', ''Color'')], references_dict = [],
       attrs_dict = [(''id'', PStr ''color''), (''type'', PStr ''Class''),
         (''stereotypeName'', PStr ''SimpleAttribute'')]\<rparr>),
     (''p1'', parsed ''p1'' ''Property'' [(''name'', ''color'')]
        [(''type'', PStr ''color''), (''class_'', PStr ''box'')]),
     (''p2'', parsed ''p2'' ''Property'' [] [(''type'', PStr ''box'')]),
     (''a1'', parsed ''a1'' ''Association'' []
        [(''memberEnd'', PList [PStr ''p1'', PStr ''p2''])])]"

text \<open>The type that a run gave to the end \<open>k\<close>, with the stereotype name of that type.\<close>

definition resolved_type :: "string \<Rightarrow> error + state \<Rightarrow> error + pyval \<times> pyval" where
  "resolved_type k r =
     bindE r (\<lambda>st. bindE (attr_of (heap st) (getattr (obj (heap st) k) ''type'') ''stereotypeName'')
       (\<lambda>sn. Inr (getattr (obj (heap st) k) ''type'', sn)))"

text \<open>The attribute calls (key, \<open>class_name\<close>, \<open>name\<close>, \<open>typeValue\<close>) and association
  calls of a run, and the \<open>written\<close> marks of the two ends of the scenario.\<close>

definition attribute_call :: "event \<Rightarrow> (string \<times> pyval \<times> pyval \<times> pyval) option" where
  "attribute_call ev =
     (case ev of
        Add_attribute k x enums \<Rightarrow>
          Some (k, getattr x ''class_name'', getattr x ''name'', getattr x ''typeValue'')
      | _ \<Rightarrow> None)"



subsection \<open>Dangling subsets\<close>

text \<open>
  Two properties of \<open>Box\<close> whose \<open>subsets\<close> name a union that nobody registered: \<open>p1\<close> is
  typed by \<open>color\<close>, \<open>q\<close> by \<open>box\<close>.
\<close>

definition dangling_state :: state where
  "dangling_state = initial
    [(''p1'',
      \<lparr>is_element = True, values_dict = [(''name'', ''color'')],
       references_dict = [(''type'', PStr ''color''), (''class_'', PStr ''box'')],
       attrs_dict = [(''id'', PStr ''p1''), (''type'', PObj ''color''),
         (''class_name'', PStr ''Box''), (''subsets'', PList [PStr ''nonexistentUnion''])]\<rparr>),
     (''q'',
      \<lparr>is_element = True, values_dict = [(''name'', ''inner'')],
       references_dict = [(''type'', PStr ''box''), (''class_'', PStr ''box'')],
       attrs_dict = [(''id'', PStr ''q''), (''type'', PObj ''box''),
         (''class_name'', PStr ''Box''), (''subsets'', PList [PStr ''nonexistentUnion''])]\<rparr>)]"

subsection \<open>An end that is also an owned attribute\<close>

text \<open>
  A class \<open>Box\<close> whose owned attribute \<open>p\<close> (named \<open>x\<close>, with \<open>isDerived\<close> set) is the
  first member end of the association \<open>a\<close>, while the property itself has no
  \<open>association\<close> field; the second end \<open>q\<close> is not owned by a class.
  \<open>emitted_and_registered\<close> gives, for a run, the properties that were passed to
  \<open>add_attribute\<close> and the ends that are registered as derived unions at its end.
\<close>

definition owned_end_model :: heap where
  "owned_end_model =
    [(''box'', parsed ''box'' ''Class'' [(''name'', ''Box'')]
        [(''ownedAttribute'', PList [PStr ''p''])]),
     (''p'', parsed ''p'' ''Property'' [(''name'', ''x''), (''isDerived'', ''1'')]
        [(''type'', PStr ''box''), (''class_'', PStr ''box'')]),
     (''q'', parsed ''q'' ''Property'' []
        [(''type'', PStr ''box''), (''association'', PStr ''a'')]),
     (''a'', parsed ''a'' ''Association'' []
        [(''memberEnd'', PList [PStr ''p'', PStr ''q''])])]"

definition emitted_and_registered :: "error + state \<Rightarrow> error + string list \<times> string list" where
  "emitted_and_registered r =
     bindE r (\<lambda>st. Inr (map fst (List.map_filter attribute_call (trace st)),
                         map snd (derivedunions st)))"

subsection \<open>The order of the writer's calls\<close>

text \<open>
  The groups of calls that the writer receives; comments and notices belong to no group.
  \<open>groups calls\<close> is the sequence of the groups of the calls, in the order of the calls.
\<close>

datatype call_group =
  Class_definitions | Attributes | Associations | Derived_unions | Redefines | Operations
  | Final_write

fun group_of :: "event \<Rightarrow> call_group option" where
  "group_of (Add_classdef k x) = Some Class_definitions"
| "group_of (Add_attribute k x enums) = Some Attributes"
| "group_of (Add_association k x k' x') = Some Associations"
| "group_of (Add_derivedunion k x) = Some Derived_unions"
| "group_of (Add_redefine k x) = Some Redefines"
| "group_of (Add_operation k x) = Some Operations"
| "group_of Write_output = Some Final_write"
| "group_of (Add_comment text) = None"
| "group_of (Msg text) = None"

definition groups :: "event list \<Rightarrow> call_group list" where
  "groups calls = List.map_filter group_of calls"

text \<open>
  \<open>claimed_rank\<close> is the position of a group in the order that the specification gives:
  class definitions, attributes, associations, redefinitions, derived unions, operations,
  the final write. \<open>emission_rank\<close> is its position in the order of the code, where
  attributes and associations share a position and derived unions come before
  redefinitions. A sequence of calls respects an order when the ranks of its groups are
  sorted.
\<close>

fun claimed_rank :: "call_group \<Rightarrow> nat" where
  "claimed_rank Class_definitions = 0"
| "claimed_rank Attributes = 1"
| "claimed_rank Associations = 2"
| "claimed_rank Redefines = 3"
| "claimed_rank Derived_unions = 4"
| "claimed_rank Operations = 5"
| "claimed_rank Final_write = 6"

fun emission_rank :: "call_group \<Rightarrow> nat" where
  "emission_rank Class_definitions = 0"
| "emission_rank Attributes = 1"
| "emission_rank Associations = 1"
| "emission_rank Derived_unions = 2"
| "emission_rank Redefines = 3"
| "emission_rank Operations = 4"
| "emission_rank Final_write = 5"

definition call_groups :: "error + state \<Rightarrow> error + call_group list" where
  "call_groups r = bindE r (\<lambda>st. Inr (groups (trace st)))"

text \<open>
  A class \<open>Box\<close> with a plain attribute \<open>weight\<close>, an attribute \<open>size\<close> that the override
  policy \<open>size_is_derived\<close> declares derived, and an operation \<open>area\<close>; an association
  \<open>a1\<close> with a plain navigable end \<open>next\<close> and a derived end \<open>all\<close>; and an association
  \<open>a2\<close> whose end \<open>head\<close> carries a stereotype with a \<open>redefines\<close> slot.
\<close>

definition size_is_derived :: "string \<Rightarrow> bool" where
  "size_is_derived q = (q = ''Box.size'')"

definition emission_model :: heap where
  "emission_model =
    [(''box'', parsed ''box'' ''Class'' [(''name'', ''Box'')]
        [(''ownedAttribute'', PList [PStr ''weight'', PStr ''size'']),
         (''ownedOperation'', PList [PStr ''area''])]),
     (''weight'', parsed ''weight'' ''Property'' [(''name'', ''weight'')] []),
     (''size'', parsed ''size'' ''Property'' [(''name'', ''size'')] []),
     (''area'', parsed ''area'' ''Operation'' [(''name'', ''area'')] []),
     (''next'', parsed ''next'' ''Property'' [(''name'', ''next'')]
        [(''type'', PStr ''box''), (''class_'', PStr ''box''), (''association'', PStr ''a1'')]),
     (''all'', parsed ''all'' ''Property'' [(''name'', ''all''), (''isDerived'', ''1'')]
        [(''type'', PStr ''box''), (''class_'', PStr ''box''), (''association'', PStr ''a1'')]),
     (''a1'', parsed ''a1'' ''Association'' []
        [(''memberEnd'', PList [PStr ''next'', PStr ''all''])]),
     (''head'', parsed ''head'' ''Property'' [(''name'', ''head'')]
        [(''type'', PStr ''box''), (''class_'', PStr ''box''), (''association'', PStr ''a2''),
         (''appliedStereotype'', PList [PStr ''si''])]),
     (''tail'', parsed ''tail'' ''Property'' []
        [(''type'', PStr ''box''), (''association'', PStr ''a2'')]),
     (''a2'', parsed ''a2'' ''Association'' []
        [(''memberEnd'', PList [PStr ''head'', PStr ''tail''])]),
     (''si'', parsed ''si'' ''InstanceSpecification'' [] [(''slot'', PList [PStr ''sl''])]),
     (''sl'', parsed ''sl'' ''Slot'' [(''value'', ''first'')]
        [(''definingFeature'', PStr ''df'')]),
     (''df'', parsed ''df'' ''Property'' [(''name'', ''redefines'')] [])]"

text \<open>\<open>extends G st st'\<close>: from \<open>st\<close> to \<open>st'\<close> the writer received further calls, all of
  groups in \<open>G\<close>.\<close>

definition extends :: "call_group set \<Rightarrow> state \<Rightarrow> state \<Rightarrow> bool" where
  "extends G st st' \<longleftrightarrow> (\<exists>gs. groups (trace st') = groups (trace st) @ gs \<and> set gs \<subseteq> G)"
section \<open>Basic facts\<close>

lemma bindE_Inr [simp]: "bindE (Inr x) f = f x"
  by (simp add: bindE_def)

lemma bindE_Inl [simp]: "bindE (Inl e) f = Inl e"
  by (simp add: bindE_def)

lemma bindE_eq_Inr: "bindE m f = Inr y \<longleftrightarrow> (\<exists>x. m = Inr x \<and> f x = Inr y)"
  by (cases m) simp_all

lemma bindE_eq_Inl: "bindE m f = Inl e \<longleftrightarrow> m = Inl e \<or> (\<exists>x. m = Inr x \<and> f x = Inl e)"
  by (cases m) simp_all

lemma obj_setattr:
  "obj (setattr h k key v) k' =
     (if k' = k then (obj h k)\<lparr>attrs_dict := AList.update key v (attrs_dict (obj h k))\<rparr>
      else obj h k')"
  by (simp add: obj_def setattr_def update_conv')

lemma getattr_setattr [simp]:
  "getattr (obj (setattr h k key v) k') key' =
     (if k' = k \<and> key' = key then v else getattr (obj h k') key')"
  by (auto simp: obj_setattr getattr_def getitem_def update_conv' split: option.splits)

lemma getitem_setattr [simp]: "getitem (obj (setattr h k key v) k') key' = getitem (obj h k') key'"
  by (auto simp: obj_setattr getitem_def split: option.splits)

lemma get_setattr [simp]: "get (obj (setattr h k key v) k') key' = get (obj h k') key'"
  by (simp add: get_def)

text \<open>A loop raises only what its body raises.\<close>

lemma for_each_error:
  assumes "\<And>x s e. f x s = Inl e \<Longrightarrow> P e"
    and "for_each f xs s = Inl e"
  shows "P e"
  using assms(2)
proof (induction xs arbitrary: s)
  case Nil
  then show ?case by simp
next
  case (Cons x xs)
  then show ?case using assms(1) by (auto split: sum.splits)
qed

lemma attr_of_error: "attr_of h v key = Inl e \<Longrightarrow> e = AttributeError"
  by (cases v) auto

lemma item_of_error: "item_of h v key = Inl e \<Longrightarrow> e = TypeError"
  by (cases v) auto

lemma py_iter_error: "py_iter v = Inl e \<Longrightarrow> e = TypeError \<or> e = Unmodelled"
  by (cases v) auto

lemma remove_whitespace_error:
  "remove_whitespace v = Inl e \<Longrightarrow> e = TypeError \<or> e = AttributeError"
  by (cases v) auto

lemma py_int_error:
  "py_int v = Inl e \<Longrightarrow> e = TypeError \<or> e = ValueError_literal \<or> e = Unmodelled"
  by (cases v) (auto simp: int_literal_def Let_def split: if_splits option.splits)

section \<open>Enriching an association end\<close>

text \<open>What a successful call leaves on a navigable end, assignment by assignment.\<close>

lemma parse_association_end_navigable:
  assumes "parse_association_end head tail h = Inr h'"
    and "truthy (get (obj h head) ''class_'')"
  shows "getattr (obj h head) ''name'' \<noteq> PNone \<and>
    (\<exists>tags cn ocn d.
      parse_association_tags (setattr h head ''navigable'' (get (obj h head) ''class_''))
        (getattr (obj h head) ''appliedStereotype'') = Inr tags \<and>
      py_int (py_or (getattr (obj h head) ''isDerived'') (PInt 0)) = Inr d \<and>
      setattr (setattr (setattr (setattr (setattr (setattr (setattr (setattr
             (setattr h head ''navigable'' (get (obj h head) ''class_''))
             head ''class_name'' cn) head ''opposite_class_name'' ocn)
             head ''lower'' (lower_bound (obj h head))) head ''upper'' (upper_bound (obj h head)))
             head ''subsets'' (fst tags))
             head ''composite'' (PBool (get (obj h head) ''aggregation'' = PStr ''composite'')))
             head ''derived'' (PInt d)) head ''redefines'' (snd tags) = h')"
  using assms
  apply (simp add: parse_association_end_def Let_def bindE_eq_Inr lower_bound_def upper_bound_def
      split: if_splits)
   apply (elim exE conjE, intro exI conjI; assumption)+
  done

lemma slot_tags_error: "slot_tags h slot tags = Inl e \<Longrightarrow> \<not> is_no_name e"
  by (auto simp: slot_tags_def bindE_eq_Inl split: if_splits
      dest!: attr_of_error remove_whitespace_error)

lemma slots_tags_error: "for_each (slot_tags h) xs tags = Inl e \<Longrightarrow> \<not> is_no_name e"
  by (erule for_each_error [rotated]) (rule slot_tags_error)

lemma stereotype_tags_error: "stereotype_tags h stereotype tags = Inl e \<Longrightarrow> \<not> is_no_name e"
  by (auto simp: stereotype_tags_def bindE_eq_Inl
      dest!: attr_of_error py_iter_error slots_tags_error)

lemma stereotypes_tags_error:
  "for_each (stereotype_tags h) xs tags = Inl e \<Longrightarrow> \<not> is_no_name e"
  by (erule for_each_error [rotated]) (rule stereotype_tags_error)

lemma parse_association_tags_error: "parse_association_tags h v = Inl e \<Longrightarrow> \<not> is_no_name e"
  by (auto simp: parse_association_tags_def bindE_eq_Inl
      dest!: py_iter_error stereotypes_tags_error)

text \<open>
  C6, as amended. \<open>parse_association_end\<close> raises its fatal error "no name, but
  navigable" exactly when the end is navigable, that is when its \<open>class_\<close> field is set
  (line 117 tests the truth value of \<open>head.get("class_")\<close>), and its name is absent. A
  non-navigable end, named or not, returns without error, and all it receives is the
  attribute \<open>navigable\<close>: none of the classification attributes is assigned. (A navigable
  end that has a name can still make the function raise another error, see below.)
\<close>

theorem parse_association_end_no_name:
  "(raises_no_name (parse_association_end head tail h) \<longleftrightarrow>
      truthy (get (obj h head) ''class_'') \<and> getattr (obj h head) ''name'' = PNone)
   \<and> (\<not> truthy (get (obj h head) ''class_'') \<longrightarrow>
        parse_association_end head tail h =
          Inr (setattr h head ''navigable'' (get (obj h head) ''class_'')))"
proof -
  have "\<not> raises_no_name (parse_association_end head tail h)"
    if "truthy (get (obj h head) ''class_'')" "getattr (obj h head) ''name'' \<noteq> PNone"
  proof (cases "parse_association_end head tail h")
    case (Inl e)
    with that have "\<not> is_no_name e"
      by (auto simp: parse_association_end_def Let_def bindE_eq_Inl
          dest!: parse_association_tags_error item_of_error py_int_error)
    with Inl show ?thesis by (simp add: raises_no_name_def)
  next
    case (Inr h')
    then show ?thesis by (simp add: raises_no_name_def)
  qed
  then show ?thesis
    by (auto simp: parse_association_end_def Let_def raises_no_name_def)
qed

theorem parse_association_end_no_name_witness:
  "\<not> truthy (get (obj node_ends ''parent'') ''class_'')
   \<and> parse_association_end ''parent'' ''children'' node_ends =
       Inr (setattr node_ends ''parent'' ''navigable'' PNone)
   \<and> truthy (get (obj node_ends ''anon'') ''class_'')
   \<and> getattr (obj node_ends ''anon'') ''name'' = PNone
   \<and> raises_no_name (parse_association_end ''anon'' ''children'' node_ends)"
proof -
  have parent: "\<not> truthy (get (obj node_ends ''parent'') ''class_'')"
    and none: "get (obj node_ends ''parent'') ''class_'' = PNone"
    and anon: "truthy (get (obj node_ends ''anon'') ''class_'')"
      "getattr (obj node_ends ''anon'') ''name'' = PNone"
    by code_simp+
  from parent parse_association_end_no_name [of "''parent''" "''children''" node_ends]
  have "parse_association_end ''parent'' ''children'' node_ends =
      Inr (setattr node_ends ''parent'' ''navigable'' (get (obj node_ends ''parent'') ''class_''))"
    by blast
  moreover from anon parse_association_end_no_name [of "''anon''" "''children''" node_ends]
  have "raises_no_name (parse_association_end ''anon'' ''children'' node_ends)"
    by blast
  ultimately show ?thesis
    using parent anon by (simp add: none)
qed

text \<open>
  The claim as it was stated lets the function raise only for a navigable end without a
  name. The end \<open>flag\<close> is navigable and has a name, and the function still raises: line 142
  applies \<open>int\<close> to its \<open>isDerived\<close> value \<open>"true"\<close>, which is a ValueError of its own.
\<close>

theorem parse_association_end_no_name_counterexample:
  "parse_association_end ''flag'' ''back'' flag_ends = Inl ValueError_literal
   \<and> truthy (get (obj flag_ends ''flag'') ''class_'')
   \<and> getattr (obj flag_ends ''flag'') ''name'' = PStr ''flag''
   \<and> getattr (obj flag_ends ''flag'') ''isDerived'' = PStr ''true''"
  by code_simp

text \<open>
  C7, as amended. For a navigable end that \<open>parse_association_end\<close> has enriched: if
  \<open>upperValue\<close> is absent the resolved upper is \<open>"*"\<close>; if \<open>lowerValue\<close> is absent the
  resolved lower equals the resolved upper, except that it is \<open>0\<close> when the resolved upper
  is \<open>"*"\<close>; and the resolved lower is never \<open>"*"\<close>. (A resolved upper \<open>"*"\<close> does not
  force the lower to \<open>0\<close> when \<open>lowerValue\<close> is given.)
\<close>

theorem multiplicity_normalization:
  assumes "parse_association_end head tail h = Inr h'"
    and "truthy (get (obj h head) ''class_'')"
  shows "(getattr (obj h head) ''upperValue'' = PNone \<longrightarrow>
            getattr (obj h' head) ''upper'' = PStr ''*'')
       \<and> (getattr (obj h head) ''lowerValue'' = PNone \<longrightarrow>
            getattr (obj h' head) ''lower'' =
              (if getattr (obj h' head) ''upper'' = PStr ''*'' then PInt 0
               else getattr (obj h' head) ''upper''))
       \<and> getattr (obj h' head) ''lower'' \<noteq> PStr ''*''"
proof -
  from parse_association_end_navigable [OF assms]
  have upper: "getattr (obj h' head) ''upper'' = upper_bound (obj h head)"
    and lower: "getattr (obj h' head) ''lower'' = lower_bound (obj h head)"
    by auto
  show ?thesis
    unfolding upper lower
    by (simp add: lower_bound_def upper_bound_def py_or_def Let_def)
qed

theorem multiplicity_normalization_witness:
  "resolved_bounds ''children'' (parse_association_end ''children'' ''parent'' node_ends) =
     Inr (PInt 0, PStr ''*'')
   \<and> truthy (get (obj node_ends ''children'') ''class_'')
   \<and> getattr (obj node_ends ''children'') ''upperValue'' = PNone
   \<and> getattr (obj node_ends ''children'') ''lowerValue'' = PNone"
proof -
  have nav: "truthy (get (obj node_ends ''children'') ''class_'')"
    and raw: "getattr (obj node_ends ''children'') ''upperValue'' = PNone"
      "getattr (obj node_ends ''children'') ''lowerValue'' = PNone"
    by code_simp+
  have "\<not> isl (parse_association_end ''children'' ''parent'' node_ends)"
    by code_simp
  then obtain h' where ok: "parse_association_end ''children'' ''parent'' node_ends = Inr h'"
    by (cases "parse_association_end ''children'' ''parent'' node_ends") auto
  from multiplicity_normalization [OF ok nav] raw
  have "getattr (obj h' ''children'') ''upper'' = PStr ''*''"
    and "getattr (obj h' ''children'') ''lower'' = PInt 0"
    by auto
  with ok nav raw show ?thesis
    by (simp add: resolved_bounds_def)
qed

text \<open>
  The claim as it was stated fails on the composite end \<open>children\<close>: its \<open>lowerValue\<close> is
  absent, yet the resolved lower is \<open>0\<close> while the resolved upper is \<open>"*"\<close>.
\<close>

theorem multiplicity_counterexample:
  "resolved_bounds ''children'' (parse_association_end ''children'' ''parent'' node_ends) =
     Inr (PInt 0, PStr ''*'')
   \<and> getattr (obj node_ends ''children'') ''lowerValue'' = PNone
   \<and> truthy (get (obj node_ends ''children'') ''class_'')
   \<and> PInt 0 \<noteq> PStr ''*''"
  by code_simp

section \<open>Removing metaclasses\<close>

lemma agree_refl: "agree P h h"
  by (simp add: agree_def)

lemma dict_getitem_Inr: "dict_getitem d v = Inr k \<longleftrightarrow> v = PStr k \<and> k \<in> set d"
  by (cases v) (auto simp: dict_getitem_def split: if_splits)

lemma extension_ends:
  assumes "for_each (extension_end all_keys) items (h, ends) = Inr (h1, ends1)"
    and "agree {} h0 h"
    and "\<forall>k\<in>set ends. \<exists>t. getitem (obj h0 k) ''type'' = PStr t \<and> getattr (obj h k) ''type'' = PObj t"
  shows "agree {} h0 h1 \<and> ends1 = ends @ List.map_filter (typed_key h0) items \<and>
    (\<forall>k\<in>set ends1. \<exists>t. getitem (obj h0 k) ''type'' = PStr t \<and> getattr (obj h1 k) ''type'' = PObj t)"
  using assms
proof (induction items arbitrary: h ends)
  case Nil
  then show ?case by (simp add: map_filter_simps)
next
  case (Cons v items)
  from Cons.prems(1) obtain h' ends' where
    step: "extension_end all_keys v (h, ends) = Inr (h', ends')"
    and rest: "for_each (extension_end all_keys) items (h', ends') = Inr (h1, ends1)"
    by (auto split: sum.splits)
  from step obtain k where v: "v = PStr k" and k: "k \<in> set all_keys"
    by (auto simp: extension_end_def bindE_eq_Inr dict_getitem_Inr)
  have raw: "getitem (obj h k) ''type'' = getitem (obj h0 k) ''type''"
    using Cons.prems(2) by (simp add: agree_def)
  show ?case
  proof (cases "truthy (getitem (obj h0 k) ''type'')")
    case False
    with step v raw have "h' = h" "ends' = ends"
      by (auto simp: extension_end_def bindE_eq_Inr dict_getitem_Inr)
    moreover from False v have "typed_key h0 v = None"
      by (simp add: typed_key_def)
    ultimately show ?thesis
      using Cons.IH [OF _ Cons.prems(2) Cons.prems(3)] rest
      by (simp add: map_filter_simps)
  next
    case True
    with step v raw obtain t where t: "getitem (obj h0 k) ''type'' = PStr t"
      and h': "h' = setattr h k ''type'' (PObj t)" and ends': "ends' = ends @ [k]"
      by (auto simp: extension_end_def bindE_eq_Inr dict_getitem_Inr)
    have a: "agree {} h0 h'"
      using Cons.prems(2) by (simp add: agree_def h')
    have b: "\<forall>k'\<in>set ends'. \<exists>t. getitem (obj h0 k') ''type'' = PStr t \<and> getattr (obj h' k') ''type'' = PObj t"
      using Cons.prems(3) t by (auto simp: h' ends')
    from True v have "typed_key h0 v = Some k"
      by (simp add: typed_key_def)
    then show ?thesis
      using Cons.IH [OF rest a b] by (simp add: map_filter_simps ends')
  qed
qed

lemma dict_del_Inr: "dict_del d v = Inr d' \<longleftrightarrow> (\<exists>s. v = PStr s \<and> s \<in> set d \<and> d' = removeAll s d)"
  by (auto simp: dict_del_def bindE_eq_Inr dict_getitem_Inr)

lemma metaclass_Nil:
  "py_iter (getattr (obj h e) ''memberEnd'') = Inr items \<Longrightarrow>
   List.map_filter (typed_key h) items = [] \<Longrightarrow> metaclass h e = None"
  by (simp add: metaclass_def)

lemma metaclass_Cons:
  "py_iter (getattr (obj h e) ''memberEnd'') = Inr items \<Longrightarrow>
   List.map_filter (typed_key h) items = k # ks \<Longrightarrow>
   getitem (obj h k) ''type'' = PStr t \<Longrightarrow> metaclass h e = Some (getattr (obj h t) ''id'')"
  by (simp add: metaclass_def)

lemma filter_extension_step:
  assumes "filter_extension all_keys e (cls, h) = Inr (cls', h')"
  shows "agree {e} h h' \<and> cls' = filter (\<lambda>c. Some (PStr c) \<noteq> metaclass h e) cls"
proof -
  from assms obtain items h1 ends where
    items: "py_iter (getattr (obj h e) ''memberEnd'') = Inr items"
    and loop: "for_each (extension_end all_keys) items (h, []) = Inr (h1, ends)"
    and rest: "(let h2 = setattr h1 e ''memberEnd'' (PList (map PObj ends)) in
      if ends \<noteq> []
      then bindE (index0 (getattr (obj h2 e) ''memberEnd'')) (\<lambda>first.
           bindE (attr_of h2 first ''type'') (\<lambda>ty.
           bindE (attr_of h2 ty ''id'') (\<lambda>i.
           bindE (dict_del cls i) (\<lambda>cls'. Inr (cls', h2)))))
      else Inr (cls, h2)) = Inr (cls', h')"
    by (auto simp: filter_extension_def bindE_eq_Inr)
  from extension_ends [OF loop agree_refl]
  have a: "agree {} h h1" and ends: "ends = List.map_filter (typed_key h) items"
    and types: "\<forall>k\<in>set ends. \<exists>t. getitem (obj h k) ''type'' = PStr t \<and> getattr (obj h1 k) ''type'' = PObj t"
    by auto
  define h2 where "h2 = setattr h1 e ''memberEnd'' (PList (map PObj ends))"
  have a2: "agree {e} h h2"
    using a by (auto simp: agree_def h2_def)
  show ?thesis
  proof (cases ends)
    case Nil
    with rest have "cls' = cls" "h' = h2"
      by (simp_all add: h2_def)
    moreover from Nil ends items have "metaclass h e = None"
      by (simp add: metaclass_Nil)
    ultimately show ?thesis using a2 by simp
  next
    case (Cons k ks)
    with types obtain t where t: "getitem (obj h k) ''type'' = PStr t"
      and ty: "getattr (obj h1 k) ''type'' = PObj t"
      by auto
    have i: "getattr (obj h1 t) ''id'' = getattr (obj h t) ''id''"
      using a by (simp add: agree_def)
    from rest Cons ty i have del: "dict_del cls (getattr (obj h t) ''id'') = Inr cls'" and "h' = h2"
      by (auto simp: h2_def [symmetric] Let_def bindE_eq_Inr) (auto simp: h2_def)
    from del obtain s where s: "getattr (obj h t) ''id'' = PStr s" and cls': "cls' = removeAll s cls"
      by (auto simp: dict_del_Inr)
    from Cons ends items t have "metaclass h e = Some (getattr (obj h t) ''id'')"
      by (simp add: metaclass_Cons)
    with s cls' have "cls' = filter (\<lambda>c. Some (PStr c) \<noteq> metaclass h e) cls"
      by (auto simp: removeAll_filter_not_eq intro: filter_cong)
    with a2 \<open>h' = h2\<close> show ?thesis by simp
  qed
qed

lemma for_each_append: "for_each f (xs @ ys) s = bindE (for_each f xs s) (for_each f ys)"
  by (induction xs arbitrary: s) (auto split: sum.splits)

lemma agree_trans: "agree P h h1 \<Longrightarrow> agree Q h1 h2 \<Longrightarrow> agree (P \<union> Q) h h2"
  by (auto simp: agree_def)

lemma typed_key_agree: "agree P h h' \<Longrightarrow> typed_key h' = typed_key h"
  by (auto simp: agree_def typed_key_def fun_eq_iff split: pyval.splits)

lemma metaclass_agree:
  assumes "agree P h h'" and "e \<notin> P"
  shows "metaclass h' e = metaclass h e"
proof -
  from assms have "getattr (obj h' e) ''memberEnd'' = getattr (obj h e) ''memberEnd''"
    and "\<And>x. getitem (obj h' x) ''type'' = getitem (obj h x) ''type''"
    and "\<And>x. getattr (obj h' x) ''id'' = getattr (obj h x) ''id''"
    by (auto simp: agree_def)
  then show ?thesis
    by (simp add: metaclass_def typed_key_agree [OF assms(1)]
        cong: sum.case_cong list.case_cong pyval.case_cong)
qed

lemma filter_extensions:
  assumes "for_each (filter_extension all_keys) exts (cls, hc) = Inr (cls', h')"
    and "agree P h hc" and "set exts \<inter> P = {}" and "distinct exts"
  shows "cls' = filter (\<lambda>c. Some (PStr c) \<notin> metaclass h ` set exts) cls"
  using assms
proof (induction exts arbitrary: cls hc P)
  case Nil
  then show ?case by simp
next
  case (Cons e exts)
  from Cons.prems(1) obtain cls1 h1 where
    step: "filter_extension all_keys e (cls, hc) = Inr (cls1, h1)"
    and rest: "for_each (filter_extension all_keys) exts (cls1, h1) = Inr (cls', h')"
    by (auto split: sum.splits)
  from Cons.prems(3) have e: "e \<notin> P" by simp
  from filter_extension_step [OF step] metaclass_agree [OF Cons.prems(2) e]
  have a1: "agree {e} hc h1" and cls1: "cls1 = filter (\<lambda>c. Some (PStr c) \<noteq> metaclass h e) cls"
    by simp_all
  from agree_trans [OF Cons.prems(2) a1] have a: "agree (insert e P) h h1"
    by simp
  from Cons.prems(3,4) have disj: "set exts \<inter> insert e P = {}" and dist: "distinct exts"
    by auto
  from Cons.IH [OF rest a disj dist] cls1 show ?case
    by (auto intro: filter_cong)
qed


lemma extension_ends_ok:
  assumes "agree {} h0 h"
    and "\<forall>v\<in>set items. \<exists>k. v = PStr k \<and> k \<in> set all_keys \<and>
           (truthy (getitem (obj h0 k) ''type'') \<longrightarrow>
              (\<exists>t. getitem (obj h0 k) ''type'' = PStr t \<and> t \<in> set all_keys))"
  shows "\<exists>h1. for_each (extension_end all_keys) items (h, ends) =
           Inr (h1, ends @ List.map_filter (typed_key h0) items)"
  using assms
proof (induction items arbitrary: h ends)
  case Nil
  then show ?case by (simp add: map_filter_simps)
next
  case (Cons v items)
  from Cons.prems(2) obtain k where v: "v = PStr k" and k: "k \<in> set all_keys"
    and ty: "truthy (getitem (obj h0 k) ''type'') \<longrightarrow>
              (\<exists>t. getitem (obj h0 k) ''type'' = PStr t \<and> t \<in> set all_keys)"
    by auto
  have raw: "getitem (obj h k) ''type'' = getitem (obj h0 k) ''type''"
    using Cons.prems(1) by (simp add: agree_def)
  from Cons.prems(2) have items: "\<forall>v\<in>set items. \<exists>k. v = PStr k \<and> k \<in> set all_keys \<and>
           (truthy (getitem (obj h0 k) ''type'') \<longrightarrow>
              (\<exists>t. getitem (obj h0 k) ''type'' = PStr t \<and> t \<in> set all_keys))"
    by simp
  show ?case
  proof (cases "truthy (getitem (obj h0 k) ''type'')")
    case False
    with v k raw have "extension_end all_keys v (h, ends) = Inr (h, ends)"
      by (simp add: extension_end_def dict_getitem_def)
    moreover from False v have "typed_key h0 v = None"
      by (simp add: typed_key_def)
    ultimately show ?thesis
      using Cons.IH [OF Cons.prems(1) items, of ends] by (simp add: map_filter_simps)
  next
    case True
    with ty obtain t where t: "getitem (obj h0 k) ''type'' = PStr t" "t \<in> set all_keys"
      by auto
    with v k raw True
    have step: "extension_end all_keys v (h, ends) = Inr (setattr h k ''type'' (PObj t), ends @ [k])"
      by (simp add: extension_end_def dict_getitem_def)
    have a: "agree {} h0 (setattr h k ''type'' (PObj t))"
      using Cons.prems(1) by (simp add: agree_def)
    from True v have "typed_key h0 v = Some k"
      by (simp add: typed_key_def)
    with step show ?thesis
      using Cons.IH [OF a items, of "ends @ [k]"] by (simp add: map_filter_simps)
  qed
qed

lemma filter_extension_metaclass:
  assumes "getattr (obj h e) ''memberEnd'' = PList (map PStr ks)"
    and "\<forall>k\<in>set ks. k \<in> set all_keys \<and>
           (truthy (getitem (obj h k) ''type'') \<longrightarrow>
              (\<exists>t. getitem (obj h k) ''type'' = PStr t \<and> t \<in> set all_keys))"
    and "metaclass h e = Some (PStr i)"
  shows "remaining_classes (filter_extension all_keys e (cls, h)) =
           (if i \<in> set cls then Inr (removeAll i cls) else Inl KeyError)"
proof -
  have items: "py_iter (getattr (obj h e) ''memberEnd'') = Inr (map PStr ks)"
    by (simp add: assms(1))
  from assms(2) have "\<forall>v\<in>set (map PStr ks). \<exists>k. v = PStr k \<and> k \<in> set all_keys \<and>
           (truthy (getitem (obj h k) ''type'') \<longrightarrow>
              (\<exists>t. getitem (obj h k) ''type'' = PStr t \<and> t \<in> set all_keys))"
    by auto
  from extension_ends_ok [OF agree_refl this, of "[]"] obtain h1 where
    loop: "for_each (extension_end all_keys) (map PStr ks) (h, []) =
             Inr (h1, List.map_filter (typed_key h) (map PStr ks))"
    by auto
  define ends where "ends = List.map_filter (typed_key h) (map PStr ks)"
  from extension_ends [OF loop agree_refl]
  have a: "agree {} h h1"
    and types: "\<forall>k\<in>set ends. \<exists>t. getitem (obj h k) ''type'' = PStr t \<and> getattr (obj h1 k) ''type'' = PObj t"
    by (auto simp: ends_def)
  from assms(3) items obtain k rest t where ends: "ends = k # rest"
    and t: "getitem (obj h k) ''type'' = PStr t" and i: "getattr (obj h t) ''id'' = PStr i"
    by (auto simp: metaclass_def ends_def split: list.splits pyval.splits)
  from types ends t have ty: "getattr (obj h1 k) ''type'' = PObj t"
    by auto
  have i1: "getattr (obj h1 t) ''id'' = PStr i"
    using a i by (simp add: agree_def)
  show ?thesis
    using items loop ends ty i1
    by (simp add: filter_extension_def ends_def [symmetric] remaining_classes_def Let_def
        dict_del_def dict_getitem_def)
qed

lemma remaining_classes_Inl: "remaining_classes r = Inl e \<longleftrightarrow> r = Inl e"
  by (cases r) (auto simp: remaining_classes_def)

text \<open>
  C2, as amended. \<open>filter_out_metaclasses\<close> removes from the class map, for each
  Extension, only the class whose key is the identifier of the type of the Extension's
  first member end that has a type (\<open>metaclass\<close>); the types of its further ends stay.
  Nothing else is removed, and Extensions none of whose member ends has a type leave
  the class map unchanged. (The keys of the dictionary \<open>extensions\<close> are distinct.)
\<close>

theorem filter_out_metaclasses_removes:
  assumes "filter_out_metaclasses cls exts all_keys h = Inr (cls', h')"
    and "distinct exts"
  shows "cls' = filter (\<lambda>c. Some (PStr c) \<notin> metaclass h ` set exts) cls
       \<and> ((\<forall>e\<in>set exts. metaclass h e = None) \<longrightarrow> cls' = cls)"
proof -
  from filter_extensions [OF _ agree_refl [of "{}"], of all_keys exts cls h cls' h'] assms
  have "cls' = filter (\<lambda>c. Some (PStr c) \<notin> metaclass h ` set exts) cls"
    by (simp add: filter_out_metaclasses_def)
  moreover have "filter (\<lambda>c. Some (PStr c) \<notin> metaclass h ` set exts) cls = cls"
    if "\<forall>e\<in>set exts. metaclass h e = None"
    using that by (auto simp: filter_id_conv)
  ultimately show ?thesis by simp
qed

theorem filter_out_metaclasses_removes_witness:
  "distinct [''ext2'']
   \<and> remaining_classes (filter_out_metaclasses [''meta'', ''other''] [''ext2'']
        (map fst extension_model) extension_model) = Inr [''other'']"
proof -
  have "\<not> isl (filter_out_metaclasses [''meta'', ''other''] [''ext2'']
        (map fst extension_model) extension_model)"
    by code_simp
  then obtain cls' h' where run: "filter_out_metaclasses [''meta'', ''other''] [''ext2'']
        (map fst extension_model) extension_model = Inr (cls', h')"
    by (cases "filter_out_metaclasses [''meta'', ''other''] [''ext2'']
        (map fst extension_model) extension_model") auto
  have d: "distinct [''ext2'']" by simp
  have "filter (\<lambda>c. Some (PStr c) \<notin> metaclass extension_model ` set [''ext2''])
      [''meta'', ''other''] = [''other'']"
    by code_simp
  with filter_out_metaclasses_removes [OF run d] have "cls' = [''other'']"
    by simp
  with run show ?thesis by (simp add: remaining_classes_def)
qed

text \<open>
  The claim as it was stated fails on \<open>ext2\<close>: the class \<open>other\<close> is the type of its
  member end \<open>e3\<close>, and it is still in the class map after the pass.
\<close>

theorem filter_out_metaclasses_counterexample:
  "remaining_classes (filter_out_metaclasses [''meta'', ''other''] [''ext2'']
     (map fst extension_model) extension_model) = Inr [''other'']
   \<and> getattr (obj extension_model ''ext2'') ''memberEnd'' = PList [PStr ''e2'', PStr ''e3'']
   \<and> getitem (obj extension_model ''e3'') ''type'' = PStr ''other''"
  by code_simp

text \<open>
  C10. Let the Extension \<open>e\<close> be reached with the class map \<open>cls1\<close> (the Extensions
  before it have been processed), let its member ends and their types resolve in
  \<open>all_elements\<close>, and let \<open>i\<close> be the identifier of the type of its first end that has a
  type. The deletion is unguarded and aims at \<open>i\<close> alone: if \<open>i\<close> is a key of the class
  map that key is removed, and if it is not, \<open>filter_out_metaclasses\<close> raises KeyError.
\<close>

theorem filter_out_metaclasses_KeyError:
  assumes "filter_out_metaclasses cls before all_keys h = Inr (cls1, h1)"
    and "getattr (obj h1 e) ''memberEnd'' = PList (map PStr ks)"
    and "\<forall>k\<in>set ks. k \<in> set all_keys \<and>
           (truthy (getitem (obj h1 k) ''type'') \<longrightarrow>
              (\<exists>t. getitem (obj h1 k) ''type'' = PStr t \<and> t \<in> set all_keys))"
    and "metaclass h1 e = Some (PStr i)"
  shows "remaining_classes (filter_out_metaclasses cls (before @ [e]) all_keys h) =
           (if i \<in> set cls1 then Inr (removeAll i cls1) else Inl KeyError)
       \<and> (i \<notin> set cls1 \<longrightarrow>
            filter_out_metaclasses cls (before @ e # after) all_keys h = Inl KeyError)"
proof -
  note step = filter_extension_metaclass [OF assms(2,3,4), of cls1]
  have "filter_out_metaclasses cls (before @ [e]) all_keys h =
      filter_extension all_keys e (cls1, h1)"
    using assms(1) by (simp add: filter_out_metaclasses_def for_each_append split: sum.splits)
  moreover have "filter_out_metaclasses cls (before @ e # after) all_keys h = Inl KeyError"
    if "i \<notin> set cls1"
  proof -
    from step that have "filter_extension all_keys e (cls1, h1) = Inl KeyError"
      by (simp add: remaining_classes_Inl)
    with assms(1) show ?thesis
      by (simp add: filter_out_metaclasses_def for_each_append)
  qed
  ultimately show ?thesis using step by simp
qed

theorem filter_out_metaclasses_KeyError_witness:
  "filter_out_metaclasses [''meta'', ''other''] [] (map fst extension_model) extension_model =
     Inr ([''meta'', ''other''], extension_model)
   \<and> getattr (obj extension_model ''ext'') ''memberEnd'' = PList (map PStr [''e1'', ''e2''])
   \<and> metaclass extension_model ''ext'' = Some (PStr ''stereo'')
   \<and> ''stereo'' \<notin> set [''meta'', ''other'']
   \<and> filter_out_metaclasses [''meta'', ''other''] [''ext''] (map fst extension_model)
        extension_model = Inl KeyError"
proof -
  have run: "filter_out_metaclasses [''meta'', ''other''] [] (map fst extension_model)
      extension_model = Inr ([''meta'', ''other''], extension_model)"
    by (simp add: filter_out_metaclasses_def)
  have ends: "getattr (obj extension_model ''ext'') ''memberEnd'' =
      PList (map PStr [''e1'', ''e2''])"
    by code_simp
  have resolved: "\<forall>k\<in>set [''e1'', ''e2'']. k \<in> set (map fst extension_model) \<and>
      (truthy (getitem (obj extension_model k) ''type'') \<longrightarrow>
         (\<exists>t. getitem (obj extension_model k) ''type'' = PStr t \<and>
              t \<in> set (map fst extension_model)))"
    by (simp add: extension_model_def parsed_def obj_def getitem_def)
  have target: "metaclass extension_model ''ext'' = Some (PStr ''stereo'')"
    by code_simp
  have absent: "''stereo'' \<notin> set [''meta'', ''other'']"
    by simp
  from filter_out_metaclasses_KeyError [OF run ends resolved target, of "[]"] absent
  have "filter_out_metaclasses [''meta'', ''other''] [''ext''] (map fst extension_model)
      extension_model = Inl KeyError"
    by simp
  with run ends target absent show ?thesis by blast
qed

section \<open>Classifying association ends\<close>

lemma update_fresh: "map_of d n = None \<Longrightarrow> AList.update n v d = d @ [(n, v)]"
  by (induction d) auto

lemma as_key_Inr: "as_key v = Inr k \<Longrightarrow> k = v"
  by (cases v) auto

lemma heap_assign [simp]: "heap (assign k key v st) = setattr (heap st) k key v"
  and trace_assign [simp]: "trace (assign k key v st) = trace st"
  and derivedunions_assign [simp]: "derivedunions (assign k key v st) = derivedunions st"
  and redefines_assign [simp]: "redefines (assign k key v st) = redefines st"
  and derivedattributes_assign [simp]: "derivedattributes (assign k key v st) = derivedattributes st"
  by (simp_all add: assign_def)

lemma heap_emit [simp]: "heap (emit ev st) = heap st"
  and trace_emit [simp]: "trace (emit ev st) = trace st @ [ev]"
  and derivedunions_emit [simp]: "derivedunions (emit ev st) = derivedunions st"
  and redefines_emit [simp]: "redefines (emit ev st) = redefines st"
  and derivedattributes_emit [simp]: "derivedattributes (emit ev st) = derivedattributes st"
  by (simp_all add: emit_def)

text \<open>
  One pass of an end through the classification (a call of \<open>classify_end\<close> that returns)
  settles the end into the outcome that \<open>settled\<close> selects, changes the state as that
  outcome prescribes, and changes at most one of the writer's calls, the derived unions
  and the redefinitions.
\<close>

lemma classify_end_pass:
  assumes "classify_end derives enums a e1 e2 st = Inr st'"
  shows "(\<exists>c. settled derives st a e1 = Inr c \<and> settles c enums a e1 e2 st st')
       \<and> length (filter id (changes st st')) \<le> 1"
proof (cases "getattr (obj (heap st) a) ''asAttribute'' \<noteq> PNone")
  case True
  with assms show ?thesis
    by (auto simp: classify_end_def settled_def simple_attribute_calls_def changes_def
        bindE_eq_Inr Let_def split: if_splits)
next
  case noattr: False
  show ?thesis
  proof (cases "truthy (getattr (obj (heap st) e1) ''redefines'')")
    case True
    with noattr assms show ?thesis
      by (auto simp: classify_end_def settled_def changes_def)
  next
    case False
    with noattr assms obtain d where d: "is_derived_end derives (obj (heap st) e1) = Inr d"
      by (auto simp: classify_end_def bindE_eq_Inr)
    show ?thesis
    proof (cases d)
      case True
      with noattr False assms d show ?thesis
        by (auto simp: classify_end_def settled_def changes_def name_get_def bindE_eq_Inr
            Let_def update_fresh split: option.splits dest!: as_key_Inr)
    next
      case notd: False
      with noattr False assms d show ?thesis
        by (auto simp: classify_end_def settled_def changes_def)
    qed
  qed
qed

text \<open>
  C1, as amended. For every association that the association loop resolves
  (\<open>resolve_association\<close> returns), each of its two member ends, in its pass through the
  classification, is settled into exactly one of the five outcomes: the one selected by
  the conditions in the order simple attribute, redefinition, derived union member, plain
  association, with non-navigable as the residual outcome of an end that meets none of
  them (navigability is tested last, not first). The state changes as that outcome
  prescribes, and in each pass at most one of the writer's calls, the derived unions and
  the redefinitions changes: the pass that registers an end as a derived union emits
  neither an attribute nor an association. (Over a whole run an end can still be both
  emitted as a plain attribute, by the attribute loop, and registered as a derived union,
  see below.)
\<close>

theorem resolve_association_settles:
  assumes "resolve_association derives enums props all_classes a st = Inr st'"
  shows "\<exists>h1 e0 e1 rest h2 h3 st2 c0 c1.
      get_association_ends a props all_classes (heap st) = Inr (h1, e0 # e1 # rest) \<and>
      parse_association_end e0 e1 h1 = Inr h2 \<and>
      parse_association_end e1 e0 h2 = Inr h3 \<and>
      classify_end derives enums a e0 e1 (st\<lparr>heap := h3\<rparr>) = Inr st2 \<and>
      classify_end derives enums a e1 e0 st2 = Inr st' \<and>
      settled derives (st\<lparr>heap := h3\<rparr>) a e0 = Inr c0 \<and>
      settles c0 enums a e0 e1 (st\<lparr>heap := h3\<rparr>) st2 \<and>
      length (filter id (changes (st\<lparr>heap := h3\<rparr>) st2)) \<le> 1 \<and>
      settled derives st2 a e1 = Inr c1 \<and>
      settles c1 enums a e1 e0 st2 st' \<and>
      length (filter id (changes st2 st')) \<le> 1"
proof -
  from assms obtain h1 ends where
    ends: "get_association_ends a props all_classes (heap st) = Inr (h1, ends)"
    and rest: "(case ends of
       end0 # end1 # _ \<Rightarrow>
         bindE (parse_association_end end0 end1 h1) (\<lambda>h2.
         bindE (parse_association_end end1 end0 h2) (\<lambda>h3.
         bindE (classify_end derives enums a end0 end1 (st\<lparr>heap := h3\<rparr>)) (\<lambda>st4.
         classify_end derives enums a end1 end0 st4)))
     | _ \<Rightarrow> Inl IndexError) = Inr st'"
    by (auto simp: resolve_association_def bindE_eq_Inr)
  from rest obtain e0 tl0 where tl0: "ends = e0 # tl0"
    by (cases ends) auto
  with rest obtain e1 rest' where tl1: "tl0 = e1 # rest'"
    by (cases tl0) auto
  from rest tl0 tl1 obtain h2 h3 st2 where
    p0: "parse_association_end e0 e1 h1 = Inr h2"
    and p1: "parse_association_end e1 e0 h2 = Inr h3"
    and first: "classify_end derives enums a e0 e1 (st\<lparr>heap := h3\<rparr>) = Inr st2"
    and second: "classify_end derives enums a e1 e0 st2 = Inr st'"
    by (auto simp: bindE_eq_Inr)
  from classify_end_pass [OF first] obtain c0 where
    c0: "settled derives (st\<lparr>heap := h3\<rparr>) a e0 = Inr c0"
      "settles c0 enums a e0 e1 (st\<lparr>heap := h3\<rparr>) st2"
      "length (filter id (changes (st\<lparr>heap := h3\<rparr>) st2)) \<le> 1"
    by blast
  from classify_end_pass [OF second] obtain c1 where
    c1: "settled derives st2 a e1 = Inr c1"
      "settles c1 enums a e1 e0 st2 st'"
      "length (filter id (changes st2 st')) \<le> 1"
    by blast
  from ends tl0 tl1 p0 p1 first second c0 c1 show ?thesis
    by blast
qed

theorem resolve_association_settles_witness:
  "\<exists>st' h1 e0 e1 rest h2 h3 st2 c0 c1.
      resolve_association no_overrides [] [''children'', ''parent''] [''node''] ''a''
        (initial node_assoc) = Inr st' \<and>
      get_association_ends ''a'' [''children'', ''parent''] [''node'']
        (heap (initial node_assoc)) = Inr (h1, e0 # e1 # rest) \<and>
      parse_association_end e0 e1 h1 = Inr h2 \<and>
      parse_association_end e1 e0 h2 = Inr h3 \<and>
      classify_end no_overrides [] ''a'' e0 e1 (initial node_assoc\<lparr>heap := h3\<rparr>) = Inr st2 \<and>
      classify_end no_overrides [] ''a'' e1 e0 st2 = Inr st' \<and>
      settled no_overrides (initial node_assoc\<lparr>heap := h3\<rparr>) ''a'' e0 = Inr c0 \<and>
      settles c0 [] ''a'' e0 e1 (initial node_assoc\<lparr>heap := h3\<rparr>) st2 \<and>
      length (filter id (changes (initial node_assoc\<lparr>heap := h3\<rparr>) st2)) \<le> 1 \<and>
      settled no_overrides st2 ''a'' e1 = Inr c1 \<and>
      settles c1 [] ''a'' e1 e0 st2 st' \<and>
      length (filter id (changes st2 st')) \<le> 1"
proof -
  have "\<not> isl (resolve_association no_overrides [] [''children'', ''parent''] [''node''] ''a''
            (initial node_assoc))"
    by code_simp
  then obtain st' where run: "resolve_association no_overrides [] [''children'', ''parent'']
      [''node''] ''a'' (initial node_assoc) = Inr st'"
    by (cases "resolve_association no_overrides [] [''children'', ''parent''] [''node''] ''a''
            (initial node_assoc)") auto
  from resolve_association_settles [OF run] run show ?thesis
    by blast
qed

text \<open>
  The claim as it was stated puts non-navigable first, and lets no end be both registered
  as a derived union and emitted as a plain attribute. With an override policy that
  declares every name derived, the run on the \<open>Node\<close> model registers the end \<open>parent\<close> as
  a derived union (under the name \<open>None\<close>) although it is not navigable. And in the run on
  the \<open>Box\<close> model the property \<open>p\<close>, an owned attribute without \<open>association\<close> field, is
  passed to \<open>add_attribute\<close> by the attribute loop (line 302) and then, as the first end
  of the association, registered as a derived union (line 334).
\<close>

theorem classification_counterexample:
  "registered_ends (generate every_name_derived 1 node_model) =
     Inr [(PStr ''children'', ''children'', PStr ''node''), (PNone, ''parent'', PNone)]
   \<and> emitted_and_registered (generate no_overrides 1 owned_end_model) = Inr ([''p''], [''p''])"
  by code_simp

text \<open>
  C5. Let an end reach the registration as a derived union (the outcome selected for it
  is derived union member) and let its name be a string or \<open>None\<close>. If a derived union is
  already registered under that name, the run aborts with the assertion error that names
  the end's class, the name and the class of the registered end. If the name is fresh the
  end is registered under it, gets an empty \<open>union\<close> list, and no call is made to the
  writer: it is not emitted as a plain association.
\<close>

theorem derived_union_registration:
  assumes "settled derives st a e1 = Inr DerivedUnionMember"
    and "as_key (getattr (obj (heap st) e1) ''name'') = Inr n"
  shows "(\<forall>d. map_of (derivedunions st) n = Some d \<longrightarrow>
            classify_end derives enums a e1 e2 st =
              Inl (AssertionError_derived (getattr (obj (heap st) e1) ''class_name'') n
                     (getattr (obj (heap st) d) ''class_name'')))
       \<and> (map_of (derivedunions st) n = None \<longrightarrow>
            (\<exists>st'. classify_end derives enums a e1 e2 st = Inr st' \<and>
               derivedunions st' = derivedunions st @ [(n, e1)] \<and>
               getattr (obj (heap st') e1) ''union'' = PList [] \<and>
               trace st' = trace st))"
proof -
  from assms(2) have n: "getattr (obj (heap st) e1) ''name'' = n"
    by (auto dest: as_key_Inr)
  from assms(1) have branch: "getattr (obj (heap st) a) ''asAttribute'' = PNone"
    "\<not> truthy (getattr (obj (heap st) e1) ''redefines'')"
    "is_derived_end derives (obj (heap st) e1) = Inr True"
    by (auto simp: settled_def bindE_eq_Inr split: if_splits)
  show ?thesis
    using branch assms(2)
    by (auto simp: classify_end_def name_get_def Let_def n update_fresh)
qed

theorem derived_union_registration_witness:
  "settled every_name_derived node_state ''a'' ''children'' = Inr DerivedUnionMember
   \<and> as_key (getattr (obj (heap node_state) ''children'') ''name'') = Inr (PStr ''children'')
   \<and> map_of (derivedunions node_state) (PStr ''children'') = None
   \<and> (\<exists>st'. classify_end every_name_derived [] ''a'' ''children'' ''parent'' node_state = Inr st' \<and>
         derivedunions st' = [(PStr ''children'', ''children'')] \<and>
         getattr (obj (heap st') ''children'') ''union'' = PList [] \<and> trace st' = [])
   \<and> map_of (derivedunions (node_state\<lparr>derivedunions := [(PStr ''children'', ''children'')]\<rparr>))
        (PStr ''children'') = Some ''children''
   \<and> classify_end every_name_derived [] ''a'' ''children'' ''parent''
        (node_state\<lparr>derivedunions := [(PStr ''children'', ''children'')]\<rparr>) =
      Inl (AssertionError_derived (PStr ''Node'') (PStr ''children'') (PStr ''Node''))"
proof -
  let ?dup = "node_state\<lparr>derivedunions := [(PStr ''children'', ''children'')]\<rparr>"
  have s1: "settled every_name_derived node_state ''a'' ''children'' = Inr DerivedUnionMember"
    and k1: "as_key (getattr (obj (heap node_state) ''children'') ''name'') = Inr (PStr ''children'')"
    and fresh: "map_of (derivedunions node_state) (PStr ''children'') = None"
    and s2: "settled every_name_derived ?dup ''a'' ''children'' = Inr DerivedUnionMember"
    and k2: "as_key (getattr (obj (heap ?dup) ''children'') ''name'') = Inr (PStr ''children'')"
    and dup: "map_of (derivedunions ?dup) (PStr ''children'') = Some ''children''"
    and names: "getattr (obj (heap ?dup) ''children'') ''class_name'' = PStr ''Node''"
      "getattr (obj (heap ?dup) ''children'') ''name'' = PStr ''children''"
    and empty: "derivedunions node_state = []" "trace node_state = []"
    by code_simp+
  from derived_union_registration [OF s1 k1, of "[]" "''parent''"] fresh empty
  have a: "\<exists>st'. classify_end every_name_derived [] ''a'' ''children'' ''parent'' node_state = Inr st' \<and>
         derivedunions st' = [(PStr ''children'', ''children'')] \<and>
         getattr (obj (heap st') ''children'') ''union'' = PList [] \<and> trace st' = []"
    by simp
  from derived_union_registration [OF s2 k2, of "[]" "''parent''"] dup names
  have b: "classify_end every_name_derived [] ''a'' ''children'' ''parent'' ?dup =
      Inl (AssertionError_derived (PStr ''Node'') (PStr ''children'') (PStr ''Node''))"
    by simp
  from s1 k1 fresh a dup b show ?thesis by blast
qed

section \<open>Resolving the ends of an association\<close>

lemma association_end_cases:
  assumes "k \<in> set props \<longrightarrow>
      single_ref (getitem (obj h k) ''type'') \<and> single_ref (getitem (obj h k) ''class_'')"
  shows "association_end a props cls (PStr k) (h, ends) = Inl KeyError \<or>
    (\<exists>h'. association_end a props cls (PStr k) (h, ends) = Inr (h', ends @ [k]) \<and>
       (\<forall>x key. getitem (obj h' x) key = getitem (obj h x) key))"
proof (cases "k \<in> set props")
  case False
  then show ?thesis by (simp add: association_end_def dict_getitem_def)
next
  case True
  with assms have refs: "single_ref (getitem (obj h k) ''type'')"
    "single_ref (getitem (obj h k) ''class_'')"
    by auto
  show ?thesis
  proof (cases "getitem (obj h k) ''type''")
    case (PStr t)
    show ?thesis
    proof (cases "getitem (obj h k) ''class_''")
      case PNone
      with PStr True show ?thesis
        by (auto simp: association_end_def dict_getitem_def get_def Let_def)
    next
      case c: (PStr c)
      with PStr True show ?thesis
        by (auto simp: association_end_def dict_getitem_def get_def Let_def)
    qed (use refs in auto)
  next
    case PNone
    with True show ?thesis by (simp add: association_end_def dict_getitem_def)
  qed (use refs in auto)
qed

lemma association_ends_KeyError:
  assumes "\<forall>k'\<in>set ks. k' \<in> set props \<longrightarrow>
      single_ref (getitem (obj h0 k') ''type'') \<and> single_ref (getitem (obj h0 k') ''class_'')"
    and "\<forall>x key. getitem (obj h x) key = getitem (obj h0 x) key"
    and "k \<in> set ks" and "k \<in> set props"
    and "getitem (obj h0 k) ''type'' = PStr t" and "t \<notin> set cls"
  shows "for_each (association_end a props cls) (map PStr ks) (h, ends) = Inl KeyError"
  using assms(1,2,3)
proof (induction ks arbitrary: h ends)
  case Nil
  then show ?case by simp
next
  case (Cons k' ks)
  have same: "getitem (obj h x) key = getitem (obj h0 x) key" for x key
    using Cons.prems(2) by simp
  have refs: "k' \<in> set props \<longrightarrow>
      single_ref (getitem (obj h k') ''type'') \<and> single_ref (getitem (obj h k') ''class_'')"
    using Cons.prems(1) by (simp add: same)
  show ?case
  proof (cases "k' = k")
    case True
    with assms(4,5,6) have "association_end a props cls (PStr k') (h, ends) = Inl KeyError"
      by (simp add: association_end_def dict_getitem_def same)
    then show ?thesis by simp
  next
    case False
    with Cons.prems(3) have k: "k \<in> set ks" by simp
    from association_end_cases [OF refs, of a cls ends]
    show ?thesis
    proof
      assume "association_end a props cls (PStr k') (h, ends) = Inl KeyError"
      then show ?thesis by simp
    next
      assume "\<exists>h'. association_end a props cls (PStr k') (h, ends) = Inr (h', ends @ [k']) \<and>
        (\<forall>x key. getitem (obj h' x) key = getitem (obj h x) key)"
      then obtain h' where step: "association_end a props cls (PStr k') (h, ends) = Inr (h', ends @ [k'])"
        and h': "\<forall>x key. getitem (obj h' x) key = getitem (obj h0 x) key"
        by (auto simp: same)
      from Cons.prems(1) have "\<forall>k'\<in>set ks. k' \<in> set props \<longrightarrow>
          single_ref (getitem (obj h0 k') ''type'') \<and> single_ref (getitem (obj h0 k') ''class_'')"
        by simp
      from Cons.IH [OF this h' k] step show ?thesis by simp
    qed
  qed
qed

text \<open>
  C4, as amended. The ends are looked up in the class map as it is after the removal of
  metaclasses and before the removal of simple-attribute classes (\<open>all_classes\<close>, the
  argument \<open>cls\<close> here). Let the member ends be identifiers and the \<open>type\<close> and \<open>class_\<close>
  of those that are properties single references. If the type identifier of an end is
  not a key of that map, as for a removed metaclass, \<open>get_association_ends\<close> raises
  KeyError. If it is the key of a class stereotyped \<open>SimpleAttribute\<close> (and the owner of
  the end, if any, resolves), the lookup succeeds: the end gets that class as its \<open>type\<close>,
  is flagged \<open>is_simple_attribute\<close>, and becomes the association's \<open>asAttribute\<close>.
\<close>

theorem association_ends_lookup:
  assumes "getattr (obj h a) ''memberEnd'' = PList (map PStr ks)"
    and "\<forall>k'\<in>set ks. k' \<in> set props \<longrightarrow>
      single_ref (getitem (obj h k') ''type'') \<and> single_ref (getitem (obj h k') ''class_'')"
    and "k \<in> set ks" and "k \<in> set props"
    and "getitem (obj h k) ''type'' = PStr t"
  shows "(t \<notin> set cls \<longrightarrow> get_association_ends a props cls h = Inl KeyError)
       \<and> (t \<in> set cls \<and> getattr (obj h t) ''stereotypeName'' = PStr ''SimpleAttribute'' \<and>
          (truthy (get (obj h k) ''class_'') \<longrightarrow>
             (\<exists>c. getitem (obj h k) ''class_'' = PStr c \<and> c \<in> set cls)) \<longrightarrow>
          (\<exists>h'. association_end a props cls (PStr k) (h, ends) = Inr (h', ends @ [k]) \<and>
             getattr (obj h' k) ''type'' = PObj t \<and>
             getattr (obj h' k) ''is_simple_attribute'' = PBool True \<and>
             getattr (obj h' a) ''asAttribute'' = PObj k))"
proof -
  have "get_association_ends a props cls h = Inl KeyError" if "t \<notin> set cls"
    using association_ends_KeyError [OF assms(2) _ assms(3,4,5) that, of h a "[]"] assms(1)
    by (simp add: get_association_ends_def)
  moreover have "\<exists>h'. association_end a props cls (PStr k) (h, ends) = Inr (h', ends @ [k]) \<and>
             getattr (obj h' k) ''type'' = PObj t \<and>
             getattr (obj h' k) ''is_simple_attribute'' = PBool True \<and>
             getattr (obj h' a) ''asAttribute'' = PObj k"
    if "t \<in> set cls" "getattr (obj h t) ''stereotypeName'' = PStr ''SimpleAttribute''"
      "truthy (get (obj h k) ''class_'') \<longrightarrow>
             (\<exists>c. getitem (obj h k) ''class_'' = PStr c \<and> c \<in> set cls)"
    using that assms(4,5)
    by (auto simp: association_end_def dict_getitem_def Let_def get_def)
  ultimately show ?thesis by blast
qed

theorem association_ends_lookup_witness:
  "getattr (obj box_ends ''a1'') ''memberEnd'' = PList (map PStr [''p1'', ''p2''])
   \<and> getitem (obj box_ends ''p1'') ''type'' = PStr ''color''
   \<and> ''color'' \<notin> set [''box'']
   \<and> get_association_ends ''a1'' [''p1'', ''p2''] [''box''] box_ends = Inl KeyError
   \<and> ''color'' \<in> set [''box'', ''color'']
   \<and> getattr (obj box_ends ''color'') ''stereotypeName'' = PStr ''SimpleAttribute''
   \<and> (\<exists>h'. association_end ''a1'' [''p1'', ''p2''] [''box'', ''color''] (PStr ''p1'')
               (box_ends, []) = Inr (h', [''p1'']) \<and>
         getattr (obj h' ''p1'') ''type'' = PObj ''color'' \<and>
         getattr (obj h' ''p1'') ''is_simple_attribute'' = PBool True \<and>
         getattr (obj h' ''a1'') ''asAttribute'' = PObj ''p1'')"
proof -
  have ends: "getattr (obj box_ends ''a1'') ''memberEnd'' = PList (map PStr [''p1'', ''p2''])"
    and ty: "getitem (obj box_ends ''p1'') ''type'' = PStr ''color''"
    and st: "getattr (obj box_ends ''color'') ''stereotypeName'' = PStr ''SimpleAttribute''"
    and owner: "getitem (obj box_ends ''p1'') ''class_'' = PStr ''box''"
    by code_simp+
  have refs: "\<forall>k'\<in>set [''p1'', ''p2'']. k' \<in> set [''p1'', ''p2''] \<longrightarrow>
      single_ref (getitem (obj box_ends k') ''type'') \<and>
      single_ref (getitem (obj box_ends k') ''class_'')"
    by (simp add: box_ends_def parsed_def obj_def getitem_def)
  have k: "''p1'' \<in> set [''p1'', ''p2'']" by simp
  note lookup = association_ends_lookup [OF ends refs k k ty]
  from lookup [of "[''box'']" "[]"]
  have a: "get_association_ends ''a1'' [''p1'', ''p2''] [''box''] box_ends = Inl KeyError"
    by simp
  from lookup [of "[''box'', ''color'']" "[]"] st owner
  have b: "\<exists>h'. association_end ''a1'' [''p1'', ''p2''] [''box'', ''color''] (PStr ''p1'')
               (box_ends, []) = Inr (h', [''p1'']) \<and>
         getattr (obj h' ''p1'') ''type'' = PObj ''color'' \<and>
         getattr (obj h' ''p1'') ''is_simple_attribute'' = PBool True \<and>
         getattr (obj h' ''a1'') ''asAttribute'' = PObj ''p1''"
    by (simp add: get_def)
  from ends ty st a b show ?thesis by simp
qed

text \<open>
  The claim as it was stated fails on the scenario of the simple attribute: the run does
  not raise, and the end \<open>p1\<close> has the class \<open>color\<close>, stereotyped \<open>SimpleAttribute\<close>, as
  its type.
\<close>

theorem association_ends_lookup_counterexample:
  "resolved_type ''p1'' (generate no_overrides 1 box_model) =
     Inr (PObj ''color'', PStr ''SimpleAttribute'')"
  by code_simp


section \<open>Linking subsets to derived unions\<close>

text \<open>
  C8, as amended. For a property and an entry \<open>s\<close> of its \<open>subsets\<close> under which no
  derived union is registered: if the \<open>type\<close> identifier of the property is a key of the
  retained class map, the pass emits one "not a derived union" notice for this entry
  and goes on; if it is not, the pass emits nothing. Either way no exception is raised
  and the store is unchanged, so no union list is modified.
\<close>

theorem link_subset_dangling:
  assumes "as_key s = Inr s"
    and "map_of (derivedunions st) s = None"
    and "dict_contains cls (getitem (obj (heap st) a) ''type'') = Inr retained"
  shows "link_subset cls a s st =
     Inr (if retained
          then emit (Msg [PStr ''not a derived union: '', getattr (obj (heap st) a) ''class_name'',
                 PStr ''.'', s]) st
          else st)"
  using assms by (simp add: link_subset_def name_getitem_def)

theorem link_subset_dangling_witness:
  "as_key (PStr ''nonexistentUnion'') = Inr (PStr ''nonexistentUnion'')
   \<and> map_of (derivedunions dangling_state) (PStr ''nonexistentUnion'') = None
   \<and> dict_contains [''box''] (getitem (obj (heap dangling_state) ''q'') ''type'') = Inr True
   \<and> link_subset [''box''] ''q'' (PStr ''nonexistentUnion'') dangling_state =
       Inr (emit (Msg [PStr ''not a derived union: '', PStr ''Box'', PStr ''.'',
                       PStr ''nonexistentUnion'']) dangling_state)"
proof -
  have key: "as_key (PStr ''nonexistentUnion'') = Inr (PStr ''nonexistentUnion'')"
    by simp
  have fresh: "map_of (derivedunions dangling_state) (PStr ''nonexistentUnion'') = None"
    and retained: "dict_contains [''box''] (getitem (obj (heap dangling_state) ''q'') ''type'') = Inr True"
    and name: "getattr (obj (heap dangling_state) ''q'') ''class_name'' = PStr ''Box''"
    by code_simp+
  from link_subset_dangling [OF key fresh retained] name key fresh retained
  show ?thesis by simp
qed

text \<open>
  The claim as it was stated fails on the property \<open>p1\<close>: its \<open>subsets\<close> names a union
  that is not registered, and since its type \<open>color\<close> is not a retained class the pass
  returns the state as it was, with no notice.
\<close>

theorem link_subset_dangling_counterexample:
  "link_derivedunions [''box''] [''p1''] dangling_state = Inr dangling_state
   \<and> getattr (obj (heap dangling_state) ''p1'') ''subsets'' = PList [PStr ''nonexistentUnion'']
   \<and> derivedunions dangling_state = []
   \<and> trace dangling_state = []"
  by code_simp

section \<open>The order of the writer's calls\<close>

lemma groups_append [simp]: "groups (xs @ ys) = groups xs @ groups ys"
  by (simp add: groups_def List.map_filter_def)

lemma groups_Nil [simp]: "groups [] = []"
  by (simp add: groups_def List.map_filter_def)

lemma groups_Cons [simp]:
  "groups (ev # evs) = (case group_of ev of None \<Rightarrow> groups evs | Some g \<Rightarrow> g # groups evs)"
  by (simp add: groups_def List.map_filter_def split: option.splits)

lemma groups_map:
  assumes "\<And>x. group_of (f x) = Some g"
  shows "set (groups (map f xs)) \<subseteq> {g}"
  by (induction xs) (simp_all add: assms)

lemma extends_refl: "extends G st st"
  by (simp add: extends_def)

lemma extends_same: "trace st' = trace st \<Longrightarrow> extends G st st'"
  by (simp add: extends_def)

lemma extends_trans: "extends G st st1 \<Longrightarrow> extends G st1 st2 \<Longrightarrow> extends G st st2"
  by (auto simp: extends_def)

lemma for_each_extends:
  assumes "\<And>x s s'. f x s = Inr s' \<Longrightarrow> extends G s s'"
    and "for_each f xs st = Inr st'"
  shows "extends G st st'"
  using assms(2)
proof (induction xs arbitrary: st)
  case Nil
  then show ?case by (simp add: extends_refl)
next
  case (Cons x xs)
  then show ?case
    by (auto split: sum.splits intro: extends_trans assms(1))
qed

lemma tag_children_silent:
  "tag_children n sType me st = Inr st' \<Longrightarrow> groups (trace st') = groups (trace st)"
  "tag_child n sType children st = Inr st' \<Longrightarrow> groups (trace st') = groups (trace st)"
proof (induction n sType me st and n sType children st arbitrary: st' and st'
    rule: tag_children_tag_child.induct)
  case (1 sType me st)
  then show ?case by simp
next
  case (2 n sType me st)
  then show ?case by (auto split: sum.splits)
next
  case (3 n sType st)
  then show ?case by simp
next
  case (4 n sType child rest st)
  then show ?case
    by (cases child) (auto simp: Let_def split: sum.splits)
qed

lemma class_stereotype_extends:
  assumes "class_stereotype limit all_keys c st = Inr st'"
  shows "extends {} st st'"
  using assms
  by (auto simp: class_stereotype_def extends_def bindE_eq_Inr Let_def
      split: if_splits dest!: tag_children_silent(1))

lemma stereotypes_extends:
  "enrich_classes_with_stereotypes limit cls all_keys st = Inr st' \<Longrightarrow> extends {} st st'"
  unfolding enrich_classes_with_stereotypes_def
  by (erule for_each_extends [rotated]) (rule class_stereotype_extends)

lemma add_classdefs_extends: "extends {Class_definitions} st (add_classdefs cls st)"
  by (simp add: extends_def add_classdefs_def groups_map)

lemma owned_attribute_extends:
  assumes "owned_attribute derives enums props c p st = Inr st'"
  shows "extends {Attributes} st st'"
proof -
  from assms obtain a where a: "dict_get props p = Inr a"
    by (auto simp: owned_attribute_def bindE_eq_Inr)
  show ?thesis
  proof (cases a)
    case (PObj k)
    with assms a show ?thesis
      by (auto simp: owned_attribute_def extends_def bindE_eq_Inr Let_def split: if_splits)
  qed (use assms a in \<open>simp_all add: owned_attribute_def\<close>)
qed

lemma class_attributes_extends:
  assumes "class_attributes derives enums props c st = Inr st'"
  shows "extends {Attributes} st st'"
  using assms
  by (auto simp: class_attributes_def bindE_eq_Inr
      elim!: for_each_extends [rotated] intro: owned_attribute_extends)

lemma classify_end_extends:
  assumes "classify_end derives enums a e1 e2 st = Inr st'"
  shows "extends {Attributes, Associations} st st'"
  using assms
  by (auto simp: classify_end_def extends_def bindE_eq_Inr Let_def
      split: if_splits option.splits)

lemma resolve_association_extends:
  assumes "resolve_association derives enums props all_classes a st = Inr st'"
  shows "extends {Attributes, Associations} st st'"
proof -
  from assms obtain h1 ends where
    rest: "(case ends of
       end0 # end1 # _ \<Rightarrow>
         bindE (parse_association_end end0 end1 h1) (\<lambda>h2.
         bindE (parse_association_end end1 end0 h2) (\<lambda>h3.
         bindE (classify_end derives enums a end0 end1 (st\<lparr>heap := h3\<rparr>)) (\<lambda>st4.
         classify_end derives enums a end1 end0 st4)))
     | _ \<Rightarrow> Inl IndexError) = Inr st'"
    by (auto simp: resolve_association_def bindE_eq_Inr)
  from rest obtain e0 tl0 where tl0: "ends = e0 # tl0"
    by (cases ends) auto
  with rest obtain e1 rest' where tl1: "tl0 = e1 # rest'"
    by (cases tl0) auto
  from rest tl0 tl1 obtain h3 st2 where
    first: "classify_end derives enums a e0 e1 (st\<lparr>heap := h3\<rparr>) = Inr st2"
    and second: "classify_end derives enums a e1 e0 st2 = Inr st'"
    by (auto simp: bindE_eq_Inr)
  have "extends {Attributes, Associations} st (st\<lparr>heap := h3\<rparr>)"
    by (simp add: extends_same)
  with classify_end_extends [OF first] classify_end_extends [OF second] show ?thesis
    by (blast intro: extends_trans)
qed

lemma link_subset_extends:
  assumes "link_subset cls a s st = Inr st'"
  shows "extends {} st st'"
  using assms
  by (auto simp: link_subset_def extends_def bindE_eq_Inr
      split: sum.splits error.splits if_splits)

lemma link_derivedunions_extends:
  assumes "link_derivedunions cls props st = Inr st'"
  shows "extends {} st st'"
  using assms unfolding link_derivedunions_def
proof (rule for_each_extends [rotated])
  fix x s s'
  assume "property_subsets cls x s = Inr s'"
  then show "extends {} s s'"
    by (auto simp: property_subsets_def bindE_eq_Inr
        elim!: for_each_extends [rotated] intro: link_subset_extends)
qed

lemma add_derivedattributes_extends: "extends {Attributes} st (add_derivedattributes st)"
  by (simp add: extends_def add_derivedattributes_def groups_map)

lemma add_derivedunions_extends: "extends {Derived_unions} st (add_derivedunions st)"
  by (simp add: extends_def add_derivedunions_def groups_map)

lemma groups_redefine_calls: "set (groups (concat (map (redefine_calls h) rs))) \<subseteq> {Redefines}"
  by (induction rs) (simp_all add: redefine_calls_def)

lemma add_redefines_extends: "extends {Redefines} st (add_redefines st)"
  by (simp add: extends_def add_redefines_def groups_redefine_calls)

lemma owned_operation_extends:
  assumes "owned_operation ops c p st = Inr st'"
  shows "extends {Operations} st st'"
proof -
  from assms obtain a where a: "dict_get ops p = Inr a"
    by (auto simp: owned_operation_def bindE_eq_Inr)
  show ?thesis
  proof (cases a)
    case (PObj k)
    with assms a show ?thesis
      by (auto simp: owned_operation_def extends_def Let_def)
  qed (use assms a in \<open>simp_all add: owned_operation_def\<close>)
qed

lemma class_operations_extends:
  assumes "class_operations ops c st = Inr st'"
  shows "extends {Operations} st st'"
  using assms
  by (auto simp: class_operations_def bindE_eq_Inr
      elim!: for_each_extends [rotated] intro: owned_operation_extends)

text \<open>If the calls made so far are in emission order and of rank at most \<open>n\<close>, a phase
  that only makes calls of rank \<open>m \<ge> n\<close> keeps them in order, with rank at most \<open>m\<close>.\<close>

lemma ordered_step:
  assumes "sorted (map emission_rank (groups (trace st))) \<and>
         (\<forall>g\<in>set (groups (trace st)). emission_rank g \<le> n)"
    and "extends G st st'"
    and "\<forall>g\<in>G. emission_rank g = m"
    and "n \<le> m"
  shows "sorted (map emission_rank (groups (trace st'))) \<and>
         (\<forall>g\<in>set (groups (trace st')). emission_rank g \<le> m)"
proof -
  from assms(2) obtain gs where gs: "groups (trace st') = groups (trace st) @ gs" "set gs \<subseteq> G"
    by (auto simp: extends_def)
  with assms(3) have const: "\<forall>g\<in>set gs. emission_rank g = m"
    by auto
  then have "map emission_rank gs = replicate (length gs) m"
    by (induction gs) auto
  then have "sorted (map emission_rank gs)"
    by (simp add: sorted_replicate)
  with assms(1,4) const gs(1) show ?thesis
    by (fastforce simp: sorted_append)
qed

text \<open>The run on the \<open>Box\<close> model with its two associations: the groups of its calls.\<close>

lemma emission_run:
  "call_groups (generate size_is_derived 1 emission_model) =
     Inr [Class_definitions, Attributes, Associations, Attributes, Derived_unions, Redefines,
          Operations, Final_write]"
  by code_simp

text \<open>
  C3, as amended. In a run of \<open>generate\<close> that completes, the writer receives its calls in
  this group order: first all class-definition calls, then all attribute calls (plain,
  derived and simple-attribute) and all association calls, with no order between these
  two kinds, then all derived-union calls, then all redefine calls, then all operation
  calls, then one final write call. No call of a later group precedes a call of an
  earlier group, and the write call is the last call and the only one of its kind.
\<close>

theorem emission_order:
  assumes "generate derives limit all_elements = Inr st"
  shows "sorted (map emission_rank (groups (trace st))) \<and>
         (\<exists>calls. groups (trace st) = calls @ [Final_write] \<and> Final_write \<notin> set calls)"
proof -
  from assms obtain b :: buckets and h2 st3 h4 all_classes st6 st7 st8 st12 where
    s3: "enrich_classes_with_stereotypes limit (classes b) (map fst all_elements)
        \<lparr>heap = h2, trace = [], derivedattributes = [], derivedunions = [], redefines = []\<rparr> =
       Inr st3"
    and s6: "for_each (class_attributes derives (enumerations b) (properties b))
        (filter_out_simple_attributes h4 all_classes)
        (add_classdefs (filter_out_simple_attributes h4 all_classes) (st3\<lparr>heap := h4\<rparr>)) =
       Inr st6"
    and s7: "for_each (resolve_association derives (enumerations b) (properties b) all_classes)
        (associations b) st6 = Inr st7"
    and s8: "link_derivedunions (filter_out_simple_attributes h4 all_classes) (properties b) st7 =
       Inr st8"
    and s12: "for_each (class_operations (operations b))
        (filter_out_simple_attributes h4 all_classes)
        (add_redefines (add_derivedunions (add_derivedattributes st8))) = Inr st12"
    and fin: "emit Write_output st12 = st"
    by (auto simp: generate_def Let_def bindE_eq_Inr split: prod.splits)
  let ?cls = "filter_out_simple_attributes h4 all_classes"
  let ?ordered = "\<lambda>n s. sorted (map emission_rank (groups (trace s))) \<and>
         (\<forall>g\<in>set (groups (trace s)). emission_rank g \<le> n)"
  from stereotypes_extends [OF s3] have "groups (trace st3) = []"
    by (simp add: extends_def)
  then have o4: "?ordered 0 (st3\<lparr>heap := h4\<rparr>)"
    by simp
  have o5: "?ordered 0 (add_classdefs ?cls (st3\<lparr>heap := h4\<rparr>))"
    by (rule ordered_step [OF o4 add_classdefs_extends]) simp_all
  have o6: "?ordered 1 st6"
    by (rule ordered_step [OF o5 for_each_extends [OF class_attributes_extends s6]]) simp_all
  have o7: "?ordered 1 st7"
    by (rule ordered_step [OF o6 for_each_extends [OF resolve_association_extends s7]])
      simp_all
  have o8: "?ordered 1 st8"
    by (rule ordered_step [OF o7 link_derivedunions_extends [OF s8]]) simp_all
  have o9: "?ordered 1 (add_derivedattributes st8)"
    by (rule ordered_step [OF o8 add_derivedattributes_extends]) simp_all
  have o10: "?ordered 2 (add_derivedunions (add_derivedattributes st8))"
    by (rule ordered_step [OF o9 add_derivedunions_extends]) simp_all
  have o11: "?ordered 3 (add_redefines (add_derivedunions (add_derivedattributes st8)))"
    by (rule ordered_step [OF o10 add_redefines_extends]) simp_all
  have last: "?ordered 4 st12"
    by (rule ordered_step [OF o11 for_each_extends [OF class_operations_extends s12]])
      simp_all
  from fin have groups: "groups (trace st) = groups (trace st12) @ [Final_write]"
    by auto
  from last have "Final_write \<notin> set (groups (trace st12))"
    by auto
  with last groups show ?thesis
    by (fastforce simp: sorted_append)
qed

theorem emission_order_witness:
  "\<exists>st. generate size_is_derived 1 emission_model = Inr st \<and>
     groups (trace st) = [Class_definitions, Attributes, Associations, Attributes,
       Derived_unions, Redefines, Operations, Final_write] \<and>
     sorted (map emission_rank (groups (trace st))) \<and>
     (\<exists>calls. groups (trace st) = calls @ [Final_write] \<and> Final_write \<notin> set calls)"
proof -
  from emission_run obtain st where run: "generate size_is_derived 1 emission_model = Inr st"
    and calls: "groups (trace st) = [Class_definitions, Attributes, Associations, Attributes,
       Derived_unions, Redefines, Operations, Final_write]"
    by (auto simp: call_groups_def bindE_eq_Inr)
  from emission_order [OF run] run calls show ?thesis
    by blast
qed

text \<open>
  The claim as it was stated puts all attribute calls before the association calls and
  the redefine calls before the derived-union calls. In the run on the \<open>Box\<close> model the
  attribute call for the derived attribute \<open>size\<close> (line 353) follows the association
  call for \<open>next\<close> (line 338), while the one for \<open>weight\<close> (line 302) precedes it, and the
  derived-union call for \<open>all\<close> (line 356) precedes the redefine call for \<open>head\<close>
  (line 360): the sequence of groups is not sorted in the claimed order.
\<close>

theorem emission_order_counterexample:
  "call_groups (generate size_is_derived 1 emission_model) =
     Inr [Class_definitions, Attributes, Associations, Attributes, Derived_unions, Redefines,
          Operations, Final_write]
   \<and> \<not> sorted (map claimed_rank [Class_definitions, Attributes, Associations, Attributes,
          Derived_unions, Redefines, Operations, Final_write])"
  using emission_run by simp

end
